theory Spec2Isabelle
  imports Complex_Main "HOL-Library.Sublist" "HOL-Library.Char_ord" "HOL-Library.List_Lexorder"
    "HOL-Library.Multiset" "HOL-Library.Product_Lexorder"
begin

section \<open>JavaScript primitives used by the script\<close>

subsection \<open>Strings\<close>

text \<open>
  A JavaScript string is a sequence of UTF-16 code units. The model uses \<^typ>\<open>string\<close>
  and reads a \<^typ>\<open>char\<close> as a code unit in the range U+0000 .. U+00FF; code units
  beyond that range are not represented. Comparison of strings with \<open><\<close> and \<open>>\<close>
  is the lexicographic order on code units, which is the order of \<^typ>\<open>char list\<close>.
\<close>

text \<open>The characters matched by \<open>\s\<close> and removed by \<open>String.prototype.trim\<close> (in range).\<close>

definition whitespace :: "char list" where
  "whitespace = [CHR 0x09, CHR 0x0A, CHR 0x0B, CHR 0x0C, CHR 0x0D, CHR 0x20, CHR 0xA0]"

definition isWhiteSpace :: "char \<Rightarrow> bool" where
  "isWhiteSpace c \<longleftrightarrow> c \<in> set whitespace"

definition trim :: "string \<Rightarrow> string" where
  "trim s = rev (dropWhile isWhiteSpace (rev (dropWhile isWhiteSpace s)))"

text \<open>\<open>toLowerCase\<close>: A-Z and the upper-case letters of Latin-1 (U+00C0 .. U+00DE
  without the multiplication sign U+00D7) move up by 32; everything else stays.\<close>

definition toLowerCase_char :: "char \<Rightarrow> char" where
  "toLowerCase_char c =
     (let n = (of_char c :: nat)
      in if (65 \<le> n \<and> n \<le> 90) \<or> (192 \<le> n \<and> n \<le> 222 \<and> n \<noteq> 215)
         then char_of (n + 32) else c)"

definition toLowerCase :: "string \<Rightarrow> string" where
  "toLowerCase s = map toLowerCase_char s"

text \<open>\<open>s.includes(t)\<close>: \<open>t\<close> occurs in \<open>s\<close> as a contiguous run.\<close>

fun includes_str :: "string \<Rightarrow> string \<Rightarrow> bool" where
  "includes_str [] t = (t = [])"
| "includes_str (c # cs) t = (prefix t (c # cs) \<or> includes_str cs t)"

subsection \<open>Numbers\<close>

text \<open>
  Page numbers, page sizes and lengths are integers far below \<open>2^53\<close>, where the
  floating-point operations of the script are exact; they are modelled as \<^typ>\<open>int\<close>.
  A division can still leave the integers (\<open>n / 0\<close>), so its result is a \<open>jsnum\<close>.
\<close>

datatype jsnum = Fin int | PosInf | NaN

text \<open>\<open>Math.ceil(len / perPage)\<close> for a length \<open>len\<close>.\<close>

definition ceil_div :: "nat \<Rightarrow> int \<Rightarrow> jsnum" where
  "ceil_div len perPage =
     (if perPage = 0 then (if len = 0 then NaN else PosInf)
      else Fin (- ((- int len) div perPage)))"

text \<open>\<open>Math.max(1, x)\<close>.\<close>

fun max1 :: "jsnum \<Rightarrow> jsnum" where
  "max1 (Fin n) = Fin (max 1 n)"
| "max1 PosInf = PosInf"
| "max1 NaN = NaN"

text \<open>\<open>p > x\<close>, \<open>p >= x\<close> and \<open>p < x\<close> for an integer \<open>p\<close>; every comparison with NaN is false.\<close>

fun js_gt :: "int \<Rightarrow> jsnum \<Rightarrow> bool" where
  "js_gt p (Fin n) = (p > n)"
| "js_gt p PosInf = False"
| "js_gt p NaN = False"

fun js_ge :: "int \<Rightarrow> jsnum \<Rightarrow> bool" where
  "js_ge p (Fin n) = (p \<ge> n)"
| "js_ge p PosInf = False"
| "js_ge p NaN = False"

fun js_lt :: "int \<Rightarrow> jsnum \<Rightarrow> bool" where
  "js_lt p (Fin n) = (p < n)"
| "js_lt p PosInf = True"
| "js_lt p NaN = False"

subsection \<open>Arrays\<close>

text \<open>\<open>xs.slice(start, fin)\<close>: a negative index counts from the end, and both are
  cut to the bounds of the array.\<close>

definition slice :: "'a list \<Rightarrow> int \<Rightarrow> int \<Rightarrow> 'a list" where
  "slice xs start fin =
     (let len = int (length xs);
          k = (if start < 0 then max (len + start) 0 else min start len);
          final = (if fin < 0 then max (len + fin) 0 else min fin len)
      in take (nat (final - k)) (drop (nat k) xs))"

text \<open>
  \<open>Array.prototype.sort(cmp)\<close> is the engine's code, not the repository's. ECMAScript
  requires it to be stable: with a consistent comparator the result is the one ordering
  of the elements in which \<open>cmp\<close> never puts a later element strictly before an earlier
  one, and elements that compare as equal stay in their input order. The model is the
  insertion sort that computes this ordering.
\<close>

fun insert_sorted :: "('a \<Rightarrow> 'a \<Rightarrow> int) \<Rightarrow> 'a \<Rightarrow> 'a list \<Rightarrow> 'a list" where
  "insert_sorted cmp x [] = [x]"
| "insert_sorted cmp x (y # ys) =
     (if cmp x y \<le> 0 then x # y # ys else y # insert_sorted cmp x ys)"

definition array_sort :: "('a \<Rightarrow> 'a \<Rightarrow> int) \<Rightarrow> 'a list \<Rightarrow> 'a list" where
  "array_sort cmp xs = foldr (insert_sorted cmp) xs []"

subsection \<open>JSON and the storage\<close>

text \<open>
  \<open>localStorage.getItem(key)\<close> returns the stored text or \<open>null\<close> (here \<open>None\<close>).
  \<open>JSON.parse\<close> is the engine's code: it is an argument of the two loaders, a function
  from the text to the parsed value or to the \<open>SyntaxError\<close> it throws. Numbers are
  integers, which is all the script stores.
\<close>

datatype jsval =
    JNull
  | JBool bool
  | JNum int
  | JStr string
  | JArr "jsval list"
  | JObj "(string \<times> jsval) list"

datatype js_error = SyntaxError

text \<open>The values that count as true in \<open>x || y\<close>.\<close>

fun truthy :: "jsval \<Rightarrow> bool" where
  "truthy JNull = False"
| "truthy (JBool b) = b"
| "truthy (JNum n) = (n \<noteq> 0)"
| "truthy (JStr s) = (s \<noteq> [])"
| "truthy (JArr vs) = True"
| "truthy (JObj kvs) = True"

subsection \<open>Regular expressions\<close>

text \<open>
  The regular expressions of the script, with matching by derivatives. \<open>NoneOf cs\<close> is a
  negated character class.
\<close>

datatype rexp =
    Zero
  | One
  | Ch char
  | NoneOf "char list"
  | Alt rexp rexp
  | Seq rexp rexp
  | Star rexp

definition Plus :: "rexp \<Rightarrow> rexp" where
  "Plus r = Seq r (Star r)"

fun nullable :: "rexp \<Rightarrow> bool" where
  "nullable Zero = False"
| "nullable One = True"
| "nullable (Ch c) = False"
| "nullable (NoneOf cs) = False"
| "nullable (Alt r s) = (nullable r \<or> nullable s)"
| "nullable (Seq r s) = (nullable r \<and> nullable s)"
| "nullable (Star r) = True"

fun deriv :: "char \<Rightarrow> rexp \<Rightarrow> rexp" where
  "deriv a Zero = Zero"
| "deriv a One = Zero"
| "deriv a (Ch c) = (if a = c then One else Zero)"
| "deriv a (NoneOf cs) = (if a \<in> set cs then Zero else One)"
| "deriv a (Alt r s) = Alt (deriv a r) (deriv a s)"
| "deriv a (Seq r s) =
     (if nullable r then Alt (Seq (deriv a r) s) (deriv a s) else Seq (deriv a r) s)"
| "deriv a (Star r) = Seq (deriv a r) (Star r)"

text \<open>\<open>/^r$/.test(v)\<close>: the whole of \<open>v\<close> matches \<open>r\<close>.\<close>

definition test :: "rexp \<Rightarrow> string \<Rightarrow> bool" where
  "test r v = nullable (foldl (\<lambda>r a. deriv a r) r v)"

text \<open>The strings that a regular expression matches.\<close>

definition conc :: "string set \<Rightarrow> string set \<Rightarrow> string set" where
  "conc A B = {u @ v | u v. u \<in> A \<and> v \<in> B}"

inductive_set star :: "string set \<Rightarrow> string set" for A :: "string set" where
  star_Nil: "[] \<in> star A"
| star_app: "u \<in> A \<Longrightarrow> v \<in> star A \<Longrightarrow> u @ v \<in> star A"

fun lang :: "rexp \<Rightarrow> string set" where
  "lang Zero = {}"
| "lang One = {[]}"
| "lang (Ch c) = {[c]}"
| "lang (NoneOf cs) = {[c] | c. c \<notin> set cs}"
| "lang (Alt r s) = lang r \<union> lang s"
| "lang (Seq r s) = conc (lang r) (lang s)"
| "lang (Star r) = star (lang r)"

section \<open>The data model\<close>

text \<open>
  A record of the store. The first variant of the script (lines 1-439) uses a number
  (\<open>Date.now()\<close>) as id and an ISO-8601 string as \<open>createdAt\<close>; the second variant
  (lines 441-606) uses a string (\<open>uid()\<close>) as id and a number as \<open>createdAt\<close>.
\<close>

record ('i, 't) entry =
  id' :: 'i
  name :: string
  email :: string
  role :: string
  createdAt :: 't

type_synonym user = "(int, string) entry"
type_synonym item = "(string, int) entry"

text \<open>
  Modelled from the spec: the options of the \<open>sortBy\<close> select, whose value is a string
  \<open>key:order\<close>, are in the page's markup, which is not among the sources. The keys are
  the four fields that section 3 of the specification lists (name, email, role,
  createdAt); the script treats every order other than \<open>asc\<close> as descending.
\<close>

datatype sort_key = Name | Email | Role | CreatedAt
datatype sort_order = Asc | Desc

section \<open>Variant 1 (script.js, lines 1-439)\<close>

subsection \<open>State\<close>

text \<open>What \<open>render\<close> writes into the page: the rows of the table, each with the state
  that \<open>render\<close> gives its checkbox, the footer and the controls.\<close>

record view1 =
  listBody :: "(user \<times> bool) list"
  countSpan :: nat
  pageSpan :: int
  prevBtn_disabled :: bool
  nextBtn_disabled :: bool
  selectAllCheckbox_checked :: bool

text \<open>
  The variables of the script, and what it does to its surroundings: \<open>localStorage\<close> holds
  every value written by \<open>setItem\<close> (newest first), \<open>alerts\<close> every message shown.
\<close>

record state1 =
  users :: "user list"
  currentPage :: int
  perPage :: int
  sortBy :: "sort_key \<times> sort_order"
  searchQuery :: string
  editingUserId :: "int option"
  selectedIds :: "int set"
  localStorage :: "user list list"
  alerts :: "string list"
  dom1 :: view1

text \<open>
  Line 54: \<open>JSON.parse(localStorage.getItem('crud_users')) || []\<close>. A missing value is
  \<open>null\<close>, which \<open>JSON.parse\<close> reads as the text \<open>null\<close>; an error of \<open>JSON.parse\<close> is
  not caught.
\<close>

definition users_init :: "(string \<Rightarrow> js_error + jsval) \<Rightarrow> string option \<Rightarrow> js_error + jsval" where
  "users_init JSON_parse stored =
     (case JSON_parse (case stored of None \<Rightarrow> ''null'' | Some raw \<Rightarrow> raw) of
        Inl e \<Rightarrow> Inl e
      | Inr v \<Rightarrow> Inr (if truthy v then v else JArr []))"

text \<open>Lines 54-62: the state before the first \<open>render\<close>, for the records \<open>us\<close> read from
  storage and the values \<open>pp\<close> and \<open>sb\<close> of the two selects.\<close>

definition blank_view1 :: view1 where
  "blank_view1 = \<lparr>listBody = [], countSpan = 0, pageSpan = 0, prevBtn_disabled = False,
     nextBtn_disabled = False, selectAllCheckbox_checked = False\<rparr>"

definition initial_state1 :: "user list \<Rightarrow> int \<Rightarrow> sort_key \<times> sort_order \<Rightarrow> state1" where
  "initial_state1 us pp sb =
     \<lparr>users = us, currentPage = 1, perPage = pp, sortBy = sb, searchQuery = [],
      editingUserId = None, selectedIds = {}, localStorage = [], alerts = [],
      dom1 = blank_view1\<rparr>"

definition saveToLocalStorage :: "state1 \<Rightarrow> state1" where
  "saveToLocalStorage s = s\<lparr>localStorage := users s # localStorage s\<rparr>"

subsection \<open>The render pipeline (lines 81-143)\<close>

text \<open>Step 1, lines 83-86.\<close>

definition filteredUsers :: "string \<Rightarrow> user list \<Rightarrow> user list" where
  "filteredUsers q us =
     filter (\<lambda>user. includes_str (toLowerCase (name user)) (toLowerCase q) \<or>
                    includes_str (toLowerCase (email user)) (toLowerCase q)) us"

text \<open>Step 2, lines 89-102. \<open>a[sortKey]\<close> is a string for each of the four keys.\<close>

fun field1 :: "sort_key \<Rightarrow> user \<Rightarrow> string" where
  "field1 Name a = name a"
| "field1 Email a = email a"
| "field1 Role a = role a"
| "field1 CreatedAt a = createdAt a"

definition compareUsers :: "sort_key \<times> sort_order \<Rightarrow> user \<Rightarrow> user \<Rightarrow> int" where
  "compareUsers sb a b =
     (let sortKey = fst sb; sortOrder = snd sb;
          valA = toLowerCase (field1 sortKey a);
          valB = toLowerCase (field1 sortKey b)
      in if valA < valB then (if sortOrder = Asc then - 1 else 1)
         else if valA > valB then (if sortOrder = Asc then 1 else - 1)
         else 0)"

definition sortedUsers :: "state1 \<Rightarrow> user list" where
  "sortedUsers s = array_sort (compareUsers (sortBy s)) (filteredUsers (searchQuery s) (users s))"

text \<open>Step 3, lines 105-108.\<close>

definition totalPages :: "state1 \<Rightarrow> jsnum" where
  "totalPages s = ceil_div (length (sortedUsers s)) (perPage s)"

definition paginatedUsers :: "state1 \<Rightarrow> user list" where
  "paginatedUsers s =
     (let start = (currentPage s - 1) * perPage s;
          fin = start + perPage s
      in slice (sortedUsers s) start fin)"

text \<open>Steps 4 and 5, lines 111-139. \<open>render\<close> reads the state and writes the page only.\<close>

definition render :: "state1 \<Rightarrow> state1" where
  "render s =
     s\<lparr>dom1 := \<lparr>
          listBody = map (\<lambda>user. (user, id' user \<in> selectedIds s)) (paginatedUsers s),
          countSpan = length (sortedUsers s),
          pageSpan = currentPage s,
          prevBtn_disabled = (currentPage s = 1),
          nextBtn_disabled = js_ge (currentPage s) (totalPages s),
          selectAllCheckbox_checked =
            ((\<forall>user \<in> set (paginatedUsers s). id' user \<in> selectedIds s) \<and>
             length (paginatedUsers s) > 0)\<rparr>\<rparr>"

subsection \<open>Event listeners (lines 160-325)\<close>

text \<open>
  The values of the form fields, the answers to \<open>confirm\<close> and the readings of the clock
  (\<open>now\<close> for \<open>Date.now()\<close>, \<open>isoNow\<close> for \<open>new Date().toISOString()\<close>) are arguments.
\<close>

text \<open>Form submission, lines 160-173.\<close>

definition itemForm_submit :: "int \<Rightarrow> string \<Rightarrow> string \<Rightarrow> string \<Rightarrow> string \<Rightarrow> state1 \<Rightarrow> state1" where
  "itemForm_submit now isoNow nameInput emailInput roleSelect s =
     (let newUser = \<lparr>id' = now, name = trim nameInput, email = trim emailInput,
                     role = roleSelect, createdAt = isoNow\<rparr>
      in render (saveToLocalStorage (s\<lparr>users := newUser # users s\<rparr>)))"

text \<open>Toolbar controls, lines 180-195.\<close>

definition searchInput_input :: "string \<Rightarrow> state1 \<Rightarrow> state1" where
  "searchInput_input v s = render (s\<lparr>searchQuery := v, currentPage := 1\<rparr>)"

definition perPageSelect_change :: "int \<Rightarrow> state1 \<Rightarrow> state1" where
  "perPageSelect_change v s = render (s\<lparr>perPage := v, currentPage := 1\<rparr>)"

definition sortBySelect_change :: "sort_key \<times> sort_order \<Rightarrow> state1 \<Rightarrow> state1" where
  "sortBySelect_change v s = render (s\<lparr>sortBy := v\<rparr>)"

text \<open>Pagination, lines 198-211. The next-page listener computes a page count of its own,
  from a filter on the name alone.\<close>

definition prevBtn_click :: "state1 \<Rightarrow> state1" where
  "prevBtn_click s =
     (if currentPage s > 1 then render (s\<lparr>currentPage := currentPage s - 1\<rparr>) else s)"

definition nextBtn_totalPages :: "state1 \<Rightarrow> jsnum" where
  "nextBtn_totalPages s =
     ceil_div
       (length (filter (\<lambda>u. includes_str (toLowerCase (name u)) (toLowerCase (searchQuery s)))
                  (users s)))
       (perPage s)"

definition nextBtn_click :: "state1 \<Rightarrow> state1" where
  "nextBtn_click s =
     (if js_lt (currentPage s) (nextBtn_totalPages s)
      then render (s\<lparr>currentPage := currentPage s + 1\<rparr>) else s)"

text \<open>Table actions, lines 214-251.\<close>

definition listBody_click_delete :: "int \<Rightarrow> bool \<Rightarrow> state1 \<Rightarrow> state1" where
  "listBody_click_delete i confirmed s =
     (if confirmed
      then render (saveToLocalStorage
             (s\<lparr>users := filter (\<lambda>user. id' user \<noteq> i) (users s),
                selectedIds := selectedIds s - {i}\<rparr>))
      else s)"

definition listBody_click_edit :: "int \<Rightarrow> state1 \<Rightarrow> state1" where
  "listBody_click_edit i s = s\<lparr>editingUserId := Some i\<rparr>"

definition listBody_click_copy :: "int \<Rightarrow> int \<Rightarrow> string \<Rightarrow> state1 \<Rightarrow> state1" where
  "listBody_click_copy i now isoNow s =
     (case find (\<lambda>u. id' u = i) (users s) of
        None \<Rightarrow> s
      | Some user \<Rightarrow>
          (let copiedUser = user\<lparr>id' := now, createdAt := isoNow\<rparr>
           in render (saveToLocalStorage (s\<lparr>users := copiedUser # users s\<rparr>))))"

text \<open>The edit form, lines 254-265: the first record with the id is changed in place.\<close>

fun update_first :: "('a \<Rightarrow> bool) \<Rightarrow> ('a \<Rightarrow> 'a) \<Rightarrow> 'a list \<Rightarrow> 'a list option" where
  "update_first P f [] = None"
| "update_first P f (x # xs) =
     (if P x then Some (f x # xs) else map_option ((#) x) (update_first P f xs))"

definition closeModal :: "state1 \<Rightarrow> state1" where
  "closeModal s = s\<lparr>editingUserId := None\<rparr>"

definition editForm_submit :: "string \<Rightarrow> string \<Rightarrow> string \<Rightarrow> state1 \<Rightarrow> state1" where
  "editForm_submit editNameInput editEmailInput editRoleSelect s =
     (case update_first (\<lambda>u. Some (id' u) = editingUserId s)
             (\<lambda>u. u\<lparr>name := trim editNameInput, email := trim editEmailInput,
                    role := editRoleSelect\<rparr>) (users s) of
        None \<Rightarrow> s
      | Some us \<Rightarrow> closeModal (render (saveToLocalStorage (s\<lparr>users := us\<rparr>))))"

text \<open>
  Bulk actions, lines 275-315. The two checkbox listeners read the \<open>.row-checkbox\<close>
  elements that are in the table when the event arrives. \<open>render\<close> writes names, emails
  and roles into the markup as they are (lines 118-122), so these elements need not be
  the checkboxes of the rows that \<open>render\<close> wrote: a name that holds markup can bring one
  of its own. They are therefore an argument of the listener: \<open>boxes\<close> holds, for every
  such element in the order of the document, the number that \<open>parseInt\<close> reads from its
  \<open>data-id\<close> and whether it is checked. The rows in \<open>dom1\<close> stay as \<open>render\<close> wrote them.
\<close>

text \<open>Lines 275-287: the select-all box has been set to \<open>checked\<close>.\<close>

definition selectAllCheckbox_change :: "bool \<Rightarrow> (int \<times> bool) list \<Rightarrow> state1 \<Rightarrow> state1" where
  "selectAllCheckbox_change checked boxes s =
     (let onPage = set (map fst boxes)
      in s\<lparr>selectedIds := (if checked then selectedIds s \<union> onPage else selectedIds s - onPage),
           dom1 := (dom1 s)\<lparr>selectAllCheckbox_checked := checked\<rparr>\<rparr>)"

text \<open>Lines 289-301: the checkbox with the id \<open>i\<close> has been set to \<open>checked\<close>; \<open>boxes\<close> are
  the checkboxes of the table after that.\<close>

definition listBody_change :: "int \<Rightarrow> bool \<Rightarrow> (int \<times> bool) list \<Rightarrow> state1 \<Rightarrow> state1" where
  "listBody_change i checked boxes s =
     s\<lparr>selectedIds := (if checked then insert i (selectedIds s) else selectedIds s - {i}),
       dom1 := (dom1 s)\<lparr>selectAllCheckbox_checked :=
                        ((\<forall>c \<in> set boxes. snd c) \<and> length boxes > 0)\<rparr>\<rparr>"

definition bulkDeleteBtn_click :: "bool \<Rightarrow> state1 \<Rightarrow> state1" where
  "bulkDeleteBtn_click confirmed s =
     (if selectedIds s = {} then s\<lparr>alerts := ''Please select users to delete.'' # alerts s\<rparr>
      else if confirmed
      then render ((saveToLocalStorage
             (s\<lparr>users := filter (\<lambda>user. id' user \<notin> selectedIds s) (users s),
                selectedIds := {}\<rparr>))\<lparr>currentPage := 1\<rparr>)
      else s)"

text \<open>Global actions, lines 318-325.\<close>

definition clearAllBtn_click :: "bool \<Rightarrow> state1 \<Rightarrow> state1" where
  "clearAllBtn_click confirmed s =
     (if confirmed then render (saveToLocalStorage (s\<lparr>users := [], selectedIds := {}\<rparr>))
      else s)"

subsection \<open>The events of the page\<close>

text \<open>
  Each listener is registered for one event of one element; an event carries what the
  listener reads from the page and from its surroundings. The listeners for the reset
  button, the CSV export and the dropdown widget do not touch the state and are left out.
\<close>

datatype event1 =
    ItemFormSubmit int string string string string
  | SearchInput string
  | PerPageChange int
  | SortByChange "sort_key \<times> sort_order"
  | PrevClick
  | NextClick
  | ClickDelete int bool
  | ClickEdit int
  | ClickCopy int int string
  | EditFormSubmit string string string
  | CancelEditClick
  | SelectAllChange bool "(int \<times> bool) list"
  | RowCheckboxChange int bool "(int \<times> bool) list"
  | BulkDeleteClick bool
  | ClearAllClick bool

fun handle1 :: "event1 \<Rightarrow> state1 \<Rightarrow> state1" where
  "handle1 (ItemFormSubmit now isoNow n e r) s = itemForm_submit now isoNow n e r s"
| "handle1 (SearchInput v) s = searchInput_input v s"
| "handle1 (PerPageChange v) s = perPageSelect_change v s"
| "handle1 (SortByChange v) s = sortBySelect_change v s"
| "handle1 PrevClick s = prevBtn_click s"
| "handle1 NextClick s = nextBtn_click s"
| "handle1 (ClickDelete i confirmed) s = listBody_click_delete i confirmed s"
| "handle1 (ClickEdit i) s = listBody_click_edit i s"
| "handle1 (ClickCopy i now isoNow) s = listBody_click_copy i now isoNow s"
| "handle1 (EditFormSubmit n e r) s = editForm_submit n e r s"
| "handle1 CancelEditClick s = closeModal s"
| "handle1 (SelectAllChange checked boxes) s = selectAllCheckbox_change checked boxes s"
| "handle1 (RowCheckboxChange i checked boxes) s = listBody_change i checked boxes s"
| "handle1 (BulkDeleteClick confirmed) s = bulkDeleteBtn_click confirmed s"
| "handle1 (ClearAllClick confirmed) s = clearAllBtn_click confirmed s"

text \<open>The page after the script has started (line 437) and a sequence of events.\<close>

definition start1 :: "user list \<Rightarrow> int \<Rightarrow> sort_key \<times> sort_order \<Rightarrow> state1" where
  "start1 us pp sb = render (initial_state1 us pp sb)"

definition run1 :: "event1 list \<Rightarrow> state1 \<Rightarrow> state1" where
  "run1 evs s = foldl (\<lambda>s ev. handle1 ev s) s evs"

section \<open>Variant 2 (script.js, lines 441-606)\<close>

subsection \<open>State\<close>

record view2 =
  tbody :: "(item \<times> bool) list"
  countEl :: nat
  pageEl :: int
  selectAll_checked :: bool

text \<open>
  The object \<open>state\<close> and the variable \<open>editingId\<close>, with the surroundings as in variant 1:
  \<open>storage\<close> holds every value written by \<open>setItem\<close> (newest first), \<open>alerts2\<close> every
  message shown, \<open>clipboard\<close> every record copied. \<open>perPage2\<close> is the number that
  \<open>state.perPage\<close> denotes.
\<close>

record state2 =
  items :: "item list"
  page :: int
  perPage2 :: int
  query :: string
  sort_spec :: "sort_key \<times> sort_order"
  selected :: "string set"
  editingId :: "string option"
  storage :: "item list list"
  alerts2 :: "string list"
  clipboard :: "item list"
  dom2 :: view2

text \<open>Line 443, with \<open>its\<close> for the records that \<open>load\<close> has read.\<close>

definition blank_view2 :: view2 where
  "blank_view2 = \<lparr>tbody = [], countEl = 0, pageEl = 0, selectAll_checked = False\<rparr>"

definition initial_state2 :: "item list \<Rightarrow> state2" where
  "initial_state2 its =
     \<lparr>items = its, page = 1, perPage2 = 5, query = [], sort_spec = (CreatedAt, Desc),
      selected = {}, editingId = None, storage = [], alerts2 = [], clipboard = [],
      dom2 = blank_view2\<rparr>"

definition save :: "state2 \<Rightarrow> state2" where
  "save s = s\<lparr>storage := items s # storage s\<rparr>"

text \<open>
  Lines 447-450: what \<open>load\<close> assigns to \<open>state.items\<close>. The stored text is parsed
  unless it is missing or empty, and an error of \<open>JSON.parse\<close> is caught.
\<close>

definition load :: "(string \<Rightarrow> js_error + jsval) \<Rightarrow> string option \<Rightarrow> jsval" where
  "load JSON_parse stored =
     (case stored of
        None \<Rightarrow> JArr []
      | Some raw \<Rightarrow>
          (if raw = [] then JArr []
           else (case JSON_parse raw of Inl e \<Rightarrow> JArr [] | Inr v \<Rightarrow> v)))"

text \<open>Lines 454-458: the demonstration records, with the results of the three calls of
  \<open>uid()\<close> and of \<open>Date.now()\<close>.\<close>

definition demo :: "string \<Rightarrow> string \<Rightarrow> string \<Rightarrow> int \<Rightarrow> int \<Rightarrow> int \<Rightarrow> item list" where
  "demo u1 u2 u3 n1 n2 n3 =
     [\<lparr>id' = u1, name = ''Rahim'', email = ''rahim@example.com'', role = ''admin'',
       createdAt = n1 - 86400000\<rparr>,
      \<lparr>id' = u2, name = ''Karim'', email = ''karim@example.com'', role = ''user'',
       createdAt = n2 - 3600000\<rparr>,
      \<lparr>id' = u3, name = ''Tanu'', email = ''tanu@example.com'', role = ''guest'',
       createdAt = n3 - 100000\<rparr>]"

definition seedIfEmpty :: "string \<Rightarrow> string \<Rightarrow> string \<Rightarrow> int \<Rightarrow> int \<Rightarrow> int \<Rightarrow> state2 \<Rightarrow> state2" where
  "seedIfEmpty u1 u2 u3 n1 n2 n3 s =
     (if items s \<noteq> [] then s else save (s\<lparr>items := demo u1 u2 u3 n1 n2 n3\<rparr>))"

subsection \<open>Filter and sort (lines 463-473)\<close>

definition keeps :: "string \<Rightarrow> item \<Rightarrow> bool" where
  "keeps q it =
     (if q = [] then True
      else includes_str (toLowerCase (name it)) q \<or> includes_str (toLowerCase (email it)) q)"

text \<open>\<open>a[key] || ''\<close> for the three text keys; the comparator does not reach it for
  \<open>createdAt\<close>.\<close>

fun field2 :: "sort_key \<Rightarrow> item \<Rightarrow> string" where
  "field2 Name a = name a"
| "field2 Email a = email a"
| "field2 Role a = role a"
| "field2 CreatedAt a = []"

definition compareItems :: "sort_key \<times> sort_order \<Rightarrow> item \<Rightarrow> item \<Rightarrow> int" where
  "compareItems sp a b =
     (let key = fst sp; dir = snd sp
      in if key = CreatedAt
         then (if dir = Asc then createdAt a - createdAt b else createdAt b - createdAt a)
         else (let A = toLowerCase (field2 key a); B = toLowerCase (field2 key b)
               in if A < B then (if dir = Asc then - 1 else 1)
                  else if A > B then (if dir = Asc then 1 else - 1)
                  else 0))"

definition queryAndSort :: "state2 \<Rightarrow> item list \<Rightarrow> item list" where
  "queryAndSort s its =
     (let q = toLowerCase (trim (query s));
          out = filter (keeps q) its
      in array_sort (compareItems (sort_spec s)) out)"

subsection \<open>Render (lines 476-513)\<close>

definition pages :: "state2 \<Rightarrow> jsnum" where
  "pages s = max1 (ceil_div (length (queryAndSort s (items s))) (perPage2 s))"

text \<open>Line 485: \<open>if(state.page>pages) state.page = pages\<close>.\<close>

definition clamp_page :: "state2 \<Rightarrow> state2" where
  "clamp_page s =
     (case pages s of
        Fin n \<Rightarrow> (if js_gt (page s) (Fin n) then s\<lparr>page := n\<rparr> else s)
      | PosInf \<Rightarrow> s
      | NaN \<Rightarrow> s)"

definition pageItems :: "state2 \<Rightarrow> item list" where
  "pageItems s =
     (let start = (page s - 1) * perPage2 s
      in slice (queryAndSort s (items s)) start (start + perPage2 s))"

definition render2 :: "state2 \<Rightarrow> state2" where
  "render2 s0 =
     (let s = clamp_page s0
      in s\<lparr>dom2 := \<lparr>
           tbody = map (\<lambda>it. (it, id' it \<in> selected s)) (pageItems s),
           countEl = length (queryAndSort s (items s)),
           pageEl = page s,
           selectAll_checked =
             (length (pageItems s) > 0 \<and> (\<forall>i \<in> set (pageItems s). id' i \<in> selected s))\<rparr>\<rparr>)"

subsection \<open>Actions (lines 519-524)\<close>

text \<open>\<open>uid\<close> and \<open>now\<close> are the results of \<open>uid()\<close> and \<open>Date.now()\<close>.\<close>

definition addItem :: "string \<Rightarrow> int \<Rightarrow> string \<Rightarrow> string \<Rightarrow> string \<Rightarrow> state2 \<Rightarrow> state2" where
  "addItem uid now nv ev rv s =
     (let data = \<lparr>id' = uid, name = nv, email = ev, role = rv, createdAt = now\<rparr>
      in render2 (save (s\<lparr>items := items s @ [data]\<rparr>)))"

definition updateItem :: "string \<Rightarrow> string \<Rightarrow> string \<Rightarrow> string \<Rightarrow> state2 \<Rightarrow> state2" where
  "updateItem i nv ev rv s =
     (case update_first (\<lambda>x. id' x = i) (\<lambda>x. x\<lparr>name := nv, email := ev, role := rv\<rparr>)
             (items s) of
        None \<Rightarrow> s
      | Some its \<Rightarrow> render2 (save (s\<lparr>items := its\<rparr>)))"

definition deleteItem :: "string \<Rightarrow> state2 \<Rightarrow> state2" where
  "deleteItem i s =
     render2 (save (s\<lparr>items := filter (\<lambda>x. id' x \<noteq> i) (items s),
                      selected := selected s - {i}\<rparr>))"

definition bulkDelete :: "bool \<Rightarrow> state2 \<Rightarrow> state2" where
  "bulkDelete confirmed s =
     (if \<not> confirmed then s
      else render2 (save (s\<lparr>items := filter (\<lambda>x. id' x \<notin> selected s) (items s),
                            selected := {}\<rparr>)))"

subsection \<open>Event wiring (lines 530-606)\<close>

text \<open>Line 604: \<open>/^[^@\s]+@[^@\s]+\.[^@\s]+$/\<close>.\<close>

definition email_rexp :: rexp where
  "email_rexp =
     (let part = Plus (NoneOf (CHR ''@'' # whitespace))
      in Seq part (Seq (Ch CHR ''@'') (Seq part (Seq (Ch CHR ''.'') part))))"

definition validateEmail :: "string \<Rightarrow> bool" where
  "validateEmail v = test email_rexp v"

definition form_submit :: "string \<Rightarrow> int \<Rightarrow> string \<Rightarrow> string \<Rightarrow> string \<Rightarrow> state2 \<Rightarrow> state2" where
  "form_submit uid now nameValue emailValue roleValue s =
     (let nv = trim nameValue; ev = trim emailValue
      in if nv = [] \<or> \<not> validateEmail ev
         then s\<lparr>alerts2 := ''Name and valid email required'' # alerts2 s\<rparr>
         else addItem uid now nv ev roleValue s)"

definition search_input :: "string \<Rightarrow> state2 \<Rightarrow> state2" where
  "search_input v s = render2 (s\<lparr>query := v, page := 1\<rparr>)"

definition perPage_change :: "int \<Rightarrow> state2 \<Rightarrow> state2" where
  "perPage_change v s = render2 (s\<lparr>perPage2 := v, page := 1\<rparr>)"

definition sortBy_change :: "sort_key \<times> sort_order \<Rightarrow> state2 \<Rightarrow> state2" where
  "sortBy_change v s = render2 (s\<lparr>sort_spec := v\<rparr>)"

definition prev_click :: "state2 \<Rightarrow> state2" where
  "prev_click s = (if page s > 1 then render2 (s\<lparr>page := page s - 1\<rparr>) else s)"

definition next_click :: "state2 \<Rightarrow> state2" where
  "next_click s =
     (let total = length (queryAndSort s (items s));
          pages = max1 (ceil_div total (perPage2 s))
      in if js_lt (page s) pages then render2 (s\<lparr>page := page s + 1\<rparr>) else s)"

definition clearAll_click :: "bool \<Rightarrow> state2 \<Rightarrow> state2" where
  "clearAll_click confirmed s =
     (if \<not> confirmed then s else render2 (save (s\<lparr>items := [], selected := {}\<rparr>)))"

text \<open>Lines 568-575: a click in the table with the action and the id of the button; an
  empty id is ignored (\<open>if(!act || !id) return\<close>).\<close>

definition list_click_delete :: "string \<Rightarrow> bool \<Rightarrow> state2 \<Rightarrow> state2" where
  "list_click_delete i confirmed s =
     (if i = [] then s else if confirmed then deleteItem i s else s)"

definition list_click_copy :: "string \<Rightarrow> state2 \<Rightarrow> state2" where
  "list_click_copy i s =
     (if i = [] then s
      else (case find (\<lambda>x. id' x = i) (items s) of
              None \<Rightarrow> s
            | Some it \<Rightarrow> s\<lparr>clipboard := it # clipboard s,
                           alerts2 := ''Copied JSON to clipboard'' # alerts2 s\<rparr>))"

definition list_change :: "string \<Rightarrow> bool \<Rightarrow> state2 \<Rightarrow> state2" where
  "list_change i checked s =
     render2 (s\<lparr>selected := (if checked then insert i (selected s) else selected s - {i})\<rparr>)"

text \<open>Lines 585-590: the rows of the table are those that \<open>render\<close> wrote (variant 2
  escapes the texts it writes, line 516); a row with an empty id is skipped
  (\<open>if(!id) return\<close>).\<close>

definition selectAll_change :: "bool \<Rightarrow> state2 \<Rightarrow> state2" where
  "selectAll_change checked s =
     (let trs = set (filter (\<lambda>i. i \<noteq> []) (map (\<lambda>row. id' (fst row)) (tbody (dom2 s))))
      in render2 (s\<lparr>selected := (if checked then selected s \<union> trs else selected s - trs)\<rparr>))"

definition openEdit :: "string \<Rightarrow> state2 \<Rightarrow> state2" where
  "openEdit i s =
     (case find (\<lambda>x. id' x = i) (items s) of
        None \<Rightarrow> s
      | Some it \<Rightarrow> s\<lparr>editingId := Some i\<rparr>)"

definition list_click_edit :: "string \<Rightarrow> state2 \<Rightarrow> state2" where
  "list_click_edit i s = (if i = [] then s else openEdit i s)"

definition cancelEdit_click :: "state2 \<Rightarrow> state2" where
  "cancelEdit_click s = s\<lparr>editingId := None\<rparr>"

definition editForm_submit2 :: "string \<Rightarrow> string \<Rightarrow> string \<Rightarrow> state2 \<Rightarrow> state2" where
  "editForm_submit2 editName editEmail editRole s =
     (case editingId s of
        None \<Rightarrow> s
      | Some i \<Rightarrow>
          (if trim editName = [] \<or> \<not> validateEmail (trim editEmail)
           then s\<lparr>alerts2 := ''Valid name & email required'' # alerts2 s\<rparr>
           else (updateItem i (trim editName) (trim editEmail) editRole s)\<lparr>editingId := None\<rparr>))"

subsection \<open>The events of the page\<close>

datatype event2 =
    FormSubmit string int string string string
  | SearchInput2 string
  | PerPageChange2 int
  | SortByChange2 "sort_key \<times> sort_order"
  | PrevClick2
  | NextClick2
  | ClearAllClick2 bool
  | BulkDeleteClick2 bool
  | ClickEdit2 string
  | ClickDelete2 string bool
  | ClickCopy2 string
  | RowCheckboxChange2 string bool
  | SelectAllChange2 bool
  | CancelEditClick2
  | EditFormSubmit2 string string string

fun handle2 :: "event2 \<Rightarrow> state2 \<Rightarrow> state2" where
  "handle2 (FormSubmit uid now n e r) s = form_submit uid now n e r s"
| "handle2 (SearchInput2 v) s = search_input v s"
| "handle2 (PerPageChange2 v) s = perPage_change v s"
| "handle2 (SortByChange2 v) s = sortBy_change v s"
| "handle2 PrevClick2 s = prev_click s"
| "handle2 NextClick2 s = next_click s"
| "handle2 (ClearAllClick2 confirmed) s = clearAll_click confirmed s"
| "handle2 (BulkDeleteClick2 confirmed) s = bulkDelete confirmed s"
| "handle2 (ClickEdit2 i) s = list_click_edit i s"
| "handle2 (ClickDelete2 i confirmed) s = list_click_delete i confirmed s"
| "handle2 (ClickCopy2 i) s = list_click_copy i s"
| "handle2 (RowCheckboxChange2 i checked) s = list_change i checked s"
| "handle2 (SelectAllChange2 checked) s = selectAll_change checked s"
| "handle2 CancelEditClick2 s = cancelEdit_click s"
| "handle2 (EditFormSubmit2 n e r) s = editForm_submit2 n e r s"

text \<open>Lines 531 and 545: the page after \<open>load(); seedIfEmpty(); render()\<close>, and a sequence
  of events.\<close>

definition start2 :: "item list \<Rightarrow> string \<Rightarrow> string \<Rightarrow> string \<Rightarrow> int \<Rightarrow> int \<Rightarrow> int \<Rightarrow> state2" where
  "start2 its u1 u2 u3 n1 n2 n3 = render2 (seedIfEmpty u1 u2 u3 n1 n2 n3 (initial_state2 its))"

definition run2 :: "event2 list \<Rightarrow> state2 \<Rightarrow> state2" where
  "run2 evs s = foldl (\<lambda>s ev. handle2 ev s) s evs"

section \<open>The formulas of the specification\<close>

text \<open>Section 4.3: \<open>totalPages = max(1, ceil(count(ordered) / perPage))\<close>.\<close>

definition totalPages_spec :: "nat \<Rightarrow> int \<Rightarrow> int" where
  "totalPages_spec n pp = max 1 \<lceil>real n / real_of_int pp\<rceil>"

text \<open>Section 4.2: keep a record iff the query is empty, or the name contains the query
  case-insensitively, or the email contains the query case-insensitively.\<close>

definition contains_ci :: "string \<Rightarrow> string \<Rightarrow> bool" where
  "contains_ci s q \<longleftrightarrow> sublist (toLowerCase q) (toLowerCase s)"

definition matches_spec :: "string \<Rightarrow> ('i, 't) entry \<Rightarrow> bool" where
  "matches_spec q r \<longleftrightarrow> q = [] \<or> contains_ci (name r) q \<or> contains_ci (email r) q"

text \<open>Section 3: an email has the shape \<open>local@domain.tld\<close>, the three parts non-empty
  and without \<open>@\<close> and whitespace.\<close>

definition email_part :: "string \<Rightarrow> bool" where
  "email_part w \<longleftrightarrow> w \<noteq> [] \<and> (\<forall>c \<in> set w. c \<noteq> CHR ''@'' \<and> \<not> isWhiteSpace c)"

definition email_shape :: "string \<Rightarrow> bool" where
  "email_shape v \<longleftrightarrow>
     (\<exists>l d t. v = l @ ''@'' @ d @ ''.'' @ t \<and> email_part l \<and> email_part d \<and> email_part t)"

text \<open>Section 3: the page is always at least 1 and at most the number of pages.\<close>

definition page_valid :: "state2 \<Rightarrow> bool" where
  "page_valid s \<longleftrightarrow> 1 \<le> page s \<and> \<not> js_gt (page s) (pages s)"




section \<open>Assumptions on the surroundings\<close>

text \<open>
  The timestamps of variant 1 are written by \<open>Date.prototype.toISOString\<close>, which is the
  engine's code. For the years 0 to 9999 ECMAScript fixes its result as
  \<open>YYYY-MM-DDTHH:mm:ss.sssZ\<close>, from the year, month, day, hours, minutes, seconds and
  milliseconds of the time in UTC; times are in chronological order when these fields are
  in lexicographic order.
\<close>

fun digits :: "nat \<Rightarrow> nat \<Rightarrow> string" where
  "digits 0 n = []"
| "digits (Suc w) n = digits w (n div 10) @ [char_of (48 + n mod 10)]"




text \<open>
  The assumption under which ids stay unique: each time a record is created or copied,
  \<open>Date.now()\<close> returns a number that is not the id of a record in the store.
\<close>

fun clock_fresh :: "event1 \<Rightarrow> state1 \<Rightarrow> bool" where
  "clock_fresh (ItemFormSubmit now isoNow n e r) s = (now \<notin> set (map id' (users s)))"
| "clock_fresh (ClickCopy i now isoNow) s = (now \<notin> set (map id' (users s)))"
| "clock_fresh ev s = True"

fun clock_fresh_run :: "event1 list \<Rightarrow> state1 \<Rightarrow> bool" where
  "clock_fresh_run [] s = True"
| "clock_fresh_run (ev # evs) s = (clock_fresh ev s \<and> clock_fresh_run evs (handle1 ev s))"

section \<open>Sample records\<close>

definition sample_users :: "nat \<Rightarrow> user list" where
  "sample_users k =
     map (\<lambda>n. \<lparr>id' = int n, name = ''Al'', email = ''al@x.io'', role = ''user'',
                 createdAt = ''2024-01-01T00:00:00.000Z''\<rparr>) [1..<Suc k]"

definition sample_items :: "nat \<Rightarrow> item list" where
  "sample_items k =
     map (\<lambda>n. \<lparr>id' = replicate n CHR ''x'', name = ''Al'', email = ''al@x.io'', role = ''user'',
                 createdAt = int n\<rparr>) [1..<Suc k]"

section \<open>Properties\<close>

subsection \<open>What render and save leave alone\<close>

lemma render_fields [simp]:
  "users (render s) = users s" "currentPage (render s) = currentPage s"
  "perPage (render s) = perPage s" "selectedIds (render s) = selectedIds s"
  "searchQuery (render s) = searchQuery s" "sortBy (render s) = sortBy s"
  "localStorage (render s) = localStorage s" "alerts (render s) = alerts s"
  "editingUserId (render s) = editingUserId s"
  by (simp_all add: render_def)

lemma clamp_page_fields [simp]:
  "items (clamp_page s) = items s" "perPage2 (clamp_page s) = perPage2 s"
  "selected (clamp_page s) = selected s" "query (clamp_page s) = query s"
  "sort_spec (clamp_page s) = sort_spec s" "storage (clamp_page s) = storage s"
  "alerts2 (clamp_page s) = alerts2 s" "editingId (clamp_page s) = editingId s"
  "clipboard (clamp_page s) = clipboard s"
  by (simp_all add: clamp_page_def split: jsnum.splits)

lemma render2_fields [simp]:
  "items (render2 s) = items s" "perPage2 (render2 s) = perPage2 s"
  "selected (render2 s) = selected s" "query (render2 s) = query s"
  "sort_spec (render2 s) = sort_spec s" "storage (render2 s) = storage s"
  "alerts2 (render2 s) = alerts2 s" "editingId (render2 s) = editingId s"
  "clipboard (render2 s) = clipboard s"
  "page (render2 s) = page (clamp_page s)"
  by (simp_all add: render2_def Let_def)

lemma save_fields [simp]:
  "users (saveToLocalStorage s) = users s" "selectedIds (saveToLocalStorage s) = selectedIds s"
  "currentPage (saveToLocalStorage s) = currentPage s"
  "perPage (saveToLocalStorage s) = perPage s"
  "searchQuery (saveToLocalStorage s) = searchQuery s"
  "alerts (saveToLocalStorage s) = alerts s"
  "localStorage (saveToLocalStorage s) = users s # localStorage s"
  "items (save t) = items t" "selected (save t) = selected t" "page (save t) = page t"
  "perPage2 (save t) = perPage2 t" "query (save t) = query t" "alerts2 (save t) = alerts2 t"
  "storage (save t) = items t # storage t"
  by (simp_all add: saveToLocalStorage_def save_def)

subsection \<open>The page count of variant 2 is at least one\<close>

lemma max1_Fin: "max1 x = Fin n \<Longrightarrow> 1 \<le> n"
  by (cases x) auto

lemma pages_Fin: "pages s = Fin n \<Longrightarrow> 1 \<le> n"
  unfolding pages_def by (rule max1_Fin)

lemma clamp_page_page:
  "page (clamp_page s) =
     (case pages s of Fin n \<Rightarrow> min (page s) n | PosInf \<Rightarrow> page s | NaN \<Rightarrow> page s)"
  by (simp add: clamp_page_def split: jsnum.splits)

lemma clamp_page_one: "page s = 1 \<Longrightarrow> page (clamp_page s) = 1"
  by (auto simp add: clamp_page_page split: jsnum.splits dest: pages_Fin)

lemma render2_pageEl: "pageEl (dom2 (render2 s)) = page (clamp_page s)"
  by (simp add: render2_def Let_def)

subsection \<open>C7: the select-all indicator\<close>

text \<open>
  C7. In both variants, \<open>render\<close> checks the select-all box if and only if the page it
  has just written has at least one row and the id of every row is in the selection set;
  the rows are the records of the current page. An empty page is never shown as fully
  selected.
\<close>

theorem select_all_iff:
  "(selectAllCheckbox_checked (dom1 (render s)) \<longleftrightarrow>
      listBody (dom1 (render s)) \<noteq> [] \<and>
      (\<forall>row \<in> set (listBody (dom1 (render s))). id' (fst row) \<in> selectedIds s))
   \<and> map fst (listBody (dom1 (render s))) = paginatedUsers s
   \<and> (selectAll_checked (dom2 (render2 t)) \<longleftrightarrow>
      tbody (dom2 (render2 t)) \<noteq> [] \<and>
      (\<forall>row \<in> set (tbody (dom2 (render2 t))). id' (fst row) \<in> selected t))
   \<and> map fst (tbody (dom2 (render2 t))) = pageItems (clamp_page t)"
  by (auto simp add: render_def render2_def Let_def comp_def)

theorem select_all_iff_witness:
  "selectAllCheckbox_checked (dom1 (render ((initial_state1
      [\<lparr>id' = 1, name = ''Rahim'', email = ''rahim@example.com'', role = ''admin'',
        createdAt = ''2024-01-01T00:00:00.000Z''\<rparr>] 5 (Name, Asc))\<lparr>selectedIds := {1}\<rparr>)))
   \<and> selectAll_checked (dom2 (render2 ((initial_state2
      [\<lparr>id' = ''a'', name = ''Rahim'', email = ''rahim@example.com'', role = ''admin'',
        createdAt = 5\<rparr>])\<lparr>selected := {''a''}\<rparr>)))"
proof -
  let ?u = "\<lparr>id' = 1, name = ''Rahim'', email = ''rahim@example.com'', role = ''admin'',
        createdAt = ''2024-01-01T00:00:00.000Z''\<rparr>"
  let ?s = "(initial_state1 [?u] 5 (Name, Asc))\<lparr>selectedIds := {1}\<rparr>"
  let ?i = "\<lparr>id' = ''a'', name = ''Rahim'', email = ''rahim@example.com'', role = ''admin'',
        createdAt = 5\<rparr>"
  let ?t = "(initial_state2 [?i])\<lparr>selected := {''a''}\<rparr>"
  have r1: "listBody (dom1 (render ?s)) = [(?u, True)]" by code_simp
  have r2: "tbody (dom2 (render2 ?t)) = [(?i, True)]" by code_simp
  from select_all_iff [of ?s ?t] r1 r2 show ?thesis
    by (simp add: initial_state1_def initial_state2_def)
qed

subsection \<open>C8: the delete family\<close>

text \<open>
  C8. After a confirmed single delete the store has no record with the deleted id and the
  selection set does not contain it; after a confirmed bulk delete (which deletes the
  records whose ids are selected) the store has no record with one of those ids and the
  selection set has none of them; after a confirmed clear-all both are empty. This holds
  in both variants.
\<close>

theorem delete_family:
  "(\<forall>u \<in> set (users (listBody_click_delete i True s)). id' u \<noteq> i)
   \<and> i \<notin> selectedIds (listBody_click_delete i True s)
   \<and> (\<forall>u \<in> set (users (bulkDeleteBtn_click True s)). id' u \<notin> selectedIds s)
   \<and> selectedIds (bulkDeleteBtn_click True s) \<inter> selectedIds s = {}
   \<and> users (clearAllBtn_click True s) = [] \<and> selectedIds (clearAllBtn_click True s) = {}
   \<and> (\<forall>x \<in> set (items (deleteItem j t)). id' x \<noteq> j)
   \<and> j \<notin> selected (deleteItem j t)
   \<and> (\<forall>x \<in> set (items (bulkDelete True t)). id' x \<notin> selected t)
   \<and> selected (bulkDelete True t) \<inter> selected t = {}
   \<and> items (clearAll_click True t) = [] \<and> selected (clearAll_click True t) = {}"
  by (simp add: listBody_click_delete_def bulkDeleteBtn_click_def clearAllBtn_click_def
      deleteItem_def bulkDelete_def clearAll_click_def)

theorem delete_family_witness:
  "map id' (users (bulkDeleteBtn_click True ((initial_state1
      [\<lparr>id' = 1, name = ''Al'', email = ''al@x.io'', role = ''user'', createdAt = ''T1''\<rparr>,
       \<lparr>id' = 2, name = ''Bo'', email = ''bo@x.io'', role = ''user'', createdAt = ''T2''\<rparr>,
       \<lparr>id' = 3, name = ''Cy'', email = ''cy@x.io'', role = ''user'', createdAt = ''T3''\<rparr>]
      5 (Name, Asc))\<lparr>selectedIds := {1, 3}\<rparr>))) = [2]
   \<and> map id' (items (deleteItem ''b'' ((initial_state2 (demo ''a'' ''b'' ''c'' 9 9 9))
      \<lparr>selected := {''b''}\<rparr>))) = [''a'', ''c'']
   \<and> selected (deleteItem ''b'' ((initial_state2 (demo ''a'' ''b'' ''c'' 9 9 9))
      \<lparr>selected := {''b''}\<rparr>)) = {}"
  using delete_family [of 1 "(initial_state1
      [\<lparr>id' = 1, name = ''Al'', email = ''al@x.io'', role = ''user'', createdAt = ''T1''\<rparr>,
       \<lparr>id' = 2, name = ''Bo'', email = ''bo@x.io'', role = ''user'', createdAt = ''T2''\<rparr>,
       \<lparr>id' = 3, name = ''Cy'', email = ''cy@x.io'', role = ''user'', createdAt = ''T3''\<rparr>]
      5 (Name, Asc))\<lparr>selectedIds := {1, 3}\<rparr>" "''b''"
      "(initial_state2 (demo ''a'' ''b'' ''c'' 9 9 9))\<lparr>selected := {''b''}\<rparr>"]
  by (simp add: bulkDeleteBtn_click_def deleteItem_def initial_state1_def initial_state2_def
      demo_def)

subsection \<open>C10: a new query or page size goes back to page one\<close>

text \<open>
  C10. In both variants the listeners for the search box and for the page-size select set
  the current page to 1 before they render, whatever the state was: after the listener
  the page cursor is 1 and the page shown is 1.
\<close>

theorem page_reset:
  "currentPage (searchInput_input v s) = 1 \<and> pageSpan (dom1 (searchInput_input v s)) = 1
   \<and> currentPage (perPageSelect_change n s) = 1 \<and> pageSpan (dom1 (perPageSelect_change n s)) = 1
   \<and> page (search_input v t) = 1 \<and> pageEl (dom2 (search_input v t)) = 1
   \<and> page (perPage_change n t) = 1 \<and> pageEl (dom2 (perPage_change n t)) = 1"
  by (simp add: searchInput_input_def perPageSelect_change_def search_input_def perPage_change_def
      render_def render2_pageEl clamp_page_one)

theorem page_reset_witness:
  "currentPage ((initial_state1 [] 5 (Name, Asc))\<lparr>currentPage := 2\<rparr>) = 2
   \<and> currentPage (searchInput_input ''al'' ((initial_state1 [] 5 (Name, Asc))\<lparr>currentPage := 2\<rparr>)) = 1
   \<and> page ((initial_state2 (demo ''a'' ''b'' ''c'' 9 9 9))\<lparr>page := 2\<rparr>) = 2
   \<and> page (perPage_change 2 ((initial_state2 (demo ''a'' ''b'' ''c'' 9 9 9))\<lparr>page := 2\<rparr>)) = 1"
  using page_reset [of "''al''" "(initial_state1 [] 5 (Name, Asc))\<lparr>currentPage := 2\<rparr>" 2
      "(initial_state2 (demo ''a'' ''b'' ''c'' 9 9 9))\<lparr>page := 2\<rparr>"]
  by simp

subsection \<open>Filtering with the empty query, and the length of a sorted array\<close>

lemma includes_str_Nil [simp]: "includes_str s []"
  by (induction s) auto

lemma filteredUsers_Nil [simp]: "filteredUsers [] us = us"
  by (simp add: filteredUsers_def toLowerCase_def)

lemma length_insert_sorted [simp]: "length (insert_sorted cmp x ys) = Suc (length ys)"
  by (induction ys) auto

lemma length_array_sort [simp]: "length (array_sort cmp xs) = length xs"
  by (induction xs) (auto simp add: array_sort_def)

subsection \<open>The page that render shows\<close>

lemma render_pageSpan [simp]: "pageSpan (dom1 (render s)) = currentPage s"
  by (simp add: render_def)

lemma totalPages_render [simp]: "totalPages (render s) = totalPages s"
  by (simp add: totalPages_def sortedUsers_def)

lemma totalPages_save [simp]: "totalPages (saveToLocalStorage s) = totalPages s"
  by (simp add: totalPages_def sortedUsers_def saveToLocalStorage_def)

subsection \<open>The page cursor of variant 2 stays valid\<close>

lemma pages_cong:
  "items s = items t \<Longrightarrow> query s = query t \<Longrightarrow> sort_spec s = sort_spec t \<Longrightarrow>
   perPage2 s = perPage2 t \<Longrightarrow> pages s = pages t"
  by (simp add: pages_def queryAndSort_def)

lemma pages_clamp_page [simp]: "pages (clamp_page s) = pages s"
  by (rule pages_cong) simp_all

lemma pages_render2 [simp]: "pages (render2 s) = pages s"
  by (rule pages_cong) simp_all

lemma page_valid_cong:
  "page_valid s \<Longrightarrow> page t = page s \<Longrightarrow> items t = items s \<Longrightarrow> query t = query s \<Longrightarrow>
   sort_spec t = sort_spec s \<Longrightarrow> perPage2 t = perPage2 s \<Longrightarrow> page_valid t"
  unfolding page_valid_def using pages_cong [of t s] by simp

lemma page_valid_render2: "1 \<le> page s \<Longrightarrow> page_valid (render2 s)"
  by (auto simp add: page_valid_def clamp_page_page split: jsnum.splits dest: pages_Fin)

lemma page_valid_updateItem:
  assumes "page_valid s"
  shows "page_valid (updateItem i n e r s)"
proof -
  have "1 \<le> page s" using assms by (simp add: page_valid_def)
  then show ?thesis
    using assms by (simp add: updateItem_def page_valid_render2 split: option.splits)
qed

lemma page_valid_handle2:
  assumes "page_valid s"
  shows "page_valid (handle2 ev s)"
proof -
  have p: "1 \<le> page s" using assms by (simp add: page_valid_def)
  show ?thesis
  proof (cases ev)
    case (FormSubmit uid now n e r)
    then show ?thesis using assms p
      by (auto simp add: form_submit_def addItem_def Let_def page_valid_render2
          intro: page_valid_cong [OF assms])
  next
    case (EditFormSubmit2 n e r)
    then show ?thesis using assms page_valid_updateItem [OF assms]
      by (auto simp add: editForm_submit2_def split: option.splits
          intro: page_valid_cong [OF assms] page_valid_cong [OF page_valid_updateItem [OF assms]])
  next
    case NextClick2
    then show ?thesis using assms p
      by (auto simp add: next_click_def Let_def page_valid_render2)
  next
    case PrevClick2
    then show ?thesis using assms p
      by (auto simp add: prev_click_def page_valid_render2)
  qed (use assms p in \<open>auto simp add: search_input_def perPage_change_def sortBy_change_def
      clearAll_click_def bulkDelete_def list_click_edit_def openEdit_def list_click_delete_def
      deleteItem_def list_click_copy_def list_change_def selectAll_change_def cancelEdit_click_def
      Let_def page_valid_render2 split: option.splits intro: page_valid_cong [OF assms]\<close>)
qed

lemma page_valid_start2: "page_valid (start2 its u1 u2 u3 n1 n2 n3)"
  unfolding start2_def
  by (rule page_valid_render2) (simp add: seedIfEmpty_def initial_state2_def)

lemma page_valid_run2: "page_valid s \<Longrightarrow> page_valid (run2 evs s)"
  unfolding run2_def by (induction evs arbitrary: s) (simp_all add: page_valid_handle2)

subsection \<open>The page cursor after the render of variant 2\<close>

lemma ceil_div_pos: "0 < p \<Longrightarrow> ceil_div n p = Fin \<lceil>real n / real_of_int p\<rceil>"
proof -
  assume p: "0 < p"
  have "\<lceil>real n / real_of_int p\<rceil> = \<lceil>real_of_int (int n) / real_of_int p\<rceil>" by simp
  also have "\<dots> = - (- int n div p)" by (rule ceiling_divide_eq_div)
  finally show ?thesis using p by (simp add: ceil_div_def)
qed

lemma pages_pos:
  "0 < perPage2 s \<Longrightarrow>
   pages s = Fin (totalPages_spec (length (queryAndSort s (items s))) (perPage2 s))"
  by (simp add: pages_def ceil_div_pos totalPages_spec_def)

text \<open>
  In variant 2, for a positive page size and a cursor of at least 1, \<open>render\<close> leaves the
  cursor at \<open>min(cursor, totalPages)\<close> with \<open>totalPages = max(1, ceil(count / perPage))\<close>:
  the effective page is in \<open>[1, totalPages]\<close>, a cursor beyond the last page falls back to
  the last page, and the page shown is the effective page. The cursor is at least 1 in
  every state that the page reaches from its start, whatever the events are.
\<close>

lemma render2_clamps:
  assumes "0 < perPage2 s" and "1 \<le> page s"
  shows "pages s = Fin (totalPages_spec (length (queryAndSort s (items s))) (perPage2 s))
     \<and> page (render2 s) =
         min (page s) (totalPages_spec (length (queryAndSort s (items s))) (perPage2 s))
     \<and> 1 \<le> page (render2 s)
     \<and> page (render2 s) \<le> totalPages_spec (length (queryAndSort s (items s))) (perPage2 s)
     \<and> pageEl (dom2 (render2 s)) = page (render2 s)
     \<and> 1 \<le> page (run2 evs (start2 its u1 u2 u3 n1 n2 n3))
     \<and> 1 \<le> page (handle2 ev (run2 evs (start2 its u1 u2 u3 n1 n2 n3)))"
proof -
  let ?tp = "totalPages_spec (length (queryAndSort s (items s))) (perPage2 s)"
  let ?r = "run2 evs (start2 its u1 u2 u3 n1 n2 n3)"
  have p: "pages s = Fin ?tp" using assms(1) by (rule pages_pos)
  have tp: "1 \<le> ?tp" by (simp add: totalPages_spec_def)
  have eff: "page (render2 s) = min (page s) ?tp" by (simp add: clamp_page_page p)
  have r: "page_valid ?r" by (rule page_valid_run2) (rule page_valid_start2)
  then have "page_valid (handle2 ev ?r)" by (rule page_valid_handle2)
  with r have "1 \<le> page ?r" "1 \<le> page (handle2 ev ?r)" by (simp_all add: page_valid_def)
  then show ?thesis using p tp eff assms(2) by (simp add: render2_pageEl)
qed

text \<open>The scenario of the specification: five per page, twelve records, page 10 requested.\<close>

lemma render2_clamps_scenario:
  "0 < perPage2 ((initial_state2 (sample_items 12))\<lparr>page := 10\<rparr>)
   \<and> 1 \<le> page ((initial_state2 (sample_items 12))\<lparr>page := 10\<rparr>)
   \<and> pages ((initial_state2 (sample_items 12))\<lparr>page := 10\<rparr>) = Fin 3
   \<and> page (render2 ((initial_state2 (sample_items 12))\<lparr>page := 10\<rparr>)) = 3
   \<and> map createdAt (pageItems (render2 ((initial_state2 (sample_items 12))\<lparr>page := 10\<rparr>))) = [2, 1]"
proof -
  let ?s = "(initial_state2 (sample_items 12))\<lparr>page := 10\<rparr>"
  have h1: "0 < perPage2 ?s" and h2: "1 \<le> page ?s" by (simp_all add: initial_state2_def)
  have len: "length (queryAndSort ?s (items ?s)) = 12" by code_simp
  have pp: "perPage2 ?s = 5" and pg: "page ?s = 10" by (simp_all add: initial_state2_def)
  have tp: "totalPages_spec 12 5 = 3" by (simp add: totalPages_spec_def)
  have its: "map createdAt (pageItems (render2 ?s)) = [2, 1]" by code_simp
  from render2_clamps [OF h1 h2] show ?thesis
    unfolding len pp pg tp using h1 h2 its by simp
qed

subsection \<open>C5: the filter step\<close>

lemma includes_str_sublist: "includes_str s t \<longleftrightarrow> sublist t s"
  by (induction s) (auto simp add: sublist_Cons_right)

lemma toLowerCase_Nil [simp]: "toLowerCase s = [] \<longleftrightarrow> s = []" "toLowerCase [] = []"
  by (simp_all add: toLowerCase_def)

lemma name_or_email_matches: "includes_str (toLowerCase (name u)) (toLowerCase q) \<or>
    includes_str (toLowerCase (email u)) (toLowerCase q) \<longleftrightarrow> matches_spec q u"
  by (auto simp add: matches_spec_def contains_ci_def includes_str_sublist)

lemma keeps_matches: "keeps (toLowerCase q) = matches_spec q"
  by (rule ext) (auto simp add: keeps_def matches_spec_def contains_ci_def includes_str_sublist)

text \<open>
  C5, amended. The filter step keeps a record if and only if the effective query is
  empty, or the name contains it case-insensitively, or the email contains it
  case-insensitively; no other field is read. The effective query is the query as typed
  in variant 1 and the query without its leading and trailing whitespace in variant 2.
\<close>

theorem filter_step:
  "filteredUsers q us = filter (matches_spec q) us
   \<and> sortedUsers s1 = array_sort (compareUsers (sortBy s1)) (filter (matches_spec (searchQuery s1)) (users s1))
   \<and> queryAndSort s2 its =
       array_sort (compareItems (sort_spec s2)) (filter (matches_spec (trim (query s2))) its)"
  by (simp add: filteredUsers_def sortedUsers_def queryAndSort_def name_or_email_matches keeps_matches)


text \<open>
  C5 as stated fails in variant 2, which trims the query (line 464): the query of one
  space is not empty and occurs in neither field of the record, yet the record is kept.
\<close>

theorem filter_step_counterexample:
  "queryAndSort ((initial_state2 [])\<lparr>query := '' ''\<rparr>)
       [\<lparr>id' = ''a'', name = ''Rahim'', email = ''rahim@example.com'', role = ''admin'', createdAt = 5::int\<rparr>]
   = [\<lparr>id' = ''a'', name = ''Rahim'', email = ''rahim@example.com'', role = ''admin'', createdAt = 5::int\<rparr>]
   \<and> '' '' \<noteq> []
   \<and> \<not> contains_ci ''Rahim'' '' ''
   \<and> \<not> contains_ci ''rahim@example.com'' '' ''"
  by code_simp

text \<open>The scenario of the specification, in both variants, and a match on the email alone.\<close>

theorem filter_step_witness:
  "filteredUsers ''kar'' [\<lparr>id' = 1, name = ''Rahim'', email = ''rahim@example.com'', role = ''admin'', createdAt = ''T1''\<rparr>] = []
  \<and> queryAndSort ((initial_state2 [])\<lparr>query := ''kar''\<rparr>)
       [\<lparr>id' = ''a'', name = ''Rahim'', email = ''rahim@example.com'', role = ''admin'', createdAt = 5::int\<rparr>] = []
  \<and> filteredUsers ''EXAMPLE'' [\<lparr>id' = 1, name = ''Rahim'', email = ''rahim@example.com'', role = ''admin'', createdAt = ''T1''\<rparr>]
     = [\<lparr>id' = 1, name = ''Rahim'', email = ''rahim@example.com'', role = ''admin'', createdAt = ''T1''\<rparr>]"
proof -
  let ?u = "\<lparr>id' = 1, name = ''Rahim'', email = ''rahim@example.com'', role = ''admin'', createdAt = ''T1''\<rparr>"
  let ?i = "\<lparr>id' = ''a'', name = ''Rahim'', email = ''rahim@example.com'', role = ''admin'', createdAt = 5::int\<rparr>"
  have a: "\<not> matches_spec ''kar'' ?u" by code_simp
  have b: "\<not> matches_spec (trim ''kar'') ?i" by code_simp
  have c: "matches_spec ''EXAMPLE'' ?u" by code_simp
  have f1: "filteredUsers ''kar'' [?u] = []"
    using filter_step [THEN conjunct1, of "''kar''" "[?u]"] a by simp
  have f2: "queryAndSort ((initial_state2 [])\<lparr>query := ''kar''\<rparr>) [?i] = []"
    using filter_step [THEN conjunct2, THEN conjunct2,
        of "(initial_state2 [])\<lparr>query := ''kar''\<rparr>" "[?i]"] b
    by (simp add: initial_state2_def array_sort_def)
  have f3: "filteredUsers ''EXAMPLE'' [?u] = [?u]"
    using filter_step [THEN conjunct1, of "''EXAMPLE''" "[?u]"] c by simp
  from f1 f2 f3 show ?thesis by blast
qed

subsection \<open>C9: the page count of the next-page listener\<close>

lemma totalPages_filter:
  "totalPages s = ceil_div (length (filter (matches_spec (searchQuery s)) (users s))) (perPage s)"
  by (simp add: totalPages_def sortedUsers_def filteredUsers_def name_or_email_matches)

lemma name_filter: "includes_str (toLowerCase (name u)) (toLowerCase q) \<longleftrightarrow> contains_ci (name u) q"
  by (simp add: contains_ci_def includes_str_sublist)

text \<open>
  C9 does not hold in variant 1. The next-page listener (line 206) counts the records whose
  name contains the query; \<open>render\<close> (lines 83-86, 105) counts the records whose name or
  email contains it. The two page counts are these:
\<close>

theorem next_page_bound:
  "nextBtn_totalPages s =
     ceil_div (length (filter (\<lambda>u. contains_ci (name u) (searchQuery s)) (users s))) (perPage s)
   \<and> totalPages s =
     ceil_div (length (filter (matches_spec (searchQuery s)) (users s))) (perPage s)"
  by (simp add: nextBtn_totalPages_def name_filter totalPages_filter)

text \<open>
  Six records whose emails, but not names, contain the query \<open>x.io\<close>, five per page:
  \<open>render\<close> counts two pages and enables the next-page button, the listener counts
  none and the click does nothing.
\<close>

theorem next_page_bound_witness:
  "totalPages (searchInput_input ''x.io'' (start1 (sample_users 6) 5 (Name, Asc))) = Fin 2
   \<and> nextBtn_totalPages (searchInput_input ''x.io'' (start1 (sample_users 6) 5 (Name, Asc))) = Fin 0
   \<and> \<not> nextBtn_disabled (dom1 (searchInput_input ''x.io'' (start1 (sample_users 6) 5 (Name, Asc))))
   \<and> nextBtn_click (searchInput_input ''x.io'' (start1 (sample_users 6) 5 (Name, Asc)))
      = searchInput_input ''x.io'' (start1 (sample_users 6) 5 (Name, Asc))"
proof -
  let ?s = "searchInput_input ''x.io'' (start1 (sample_users 6) 5 (Name, Asc))"
  have q: "searchQuery ?s = ''x.io''" and u: "users ?s = sample_users 6" and pp: "perPage ?s = 5"
    and cp: "currentPage ?s = 1"
    by (simp_all add: searchInput_input_def start1_def initial_state1_def)
  have n: "filter (\<lambda>u. contains_ci (name u) ''x.io'') (sample_users 6) = []" by code_simp
  have e: "length (filter (matches_spec ''x.io'') (sample_users 6)) = 6" by code_simp
  have tp: "totalPages ?s = Fin 2" and np: "nextBtn_totalPages ?s = Fin 0"
    using next_page_bound [of ?s] unfolding q u pp n e by (simp_all add: ceil_div_def)
  have dis: "\<not> nextBtn_disabled (dom1 ?s)"
  proof -
    have "nextBtn_disabled (dom1 ?s) = js_ge (currentPage ?s) (totalPages ?s)"
      by (simp add: searchInput_input_def render_def totalPages_def sortedUsers_def)
    then show ?thesis by (simp add: tp cp)
  qed
  have stay: "nextBtn_click ?s = ?s" by (simp add: nextBtn_click_def np cp)
  from tp np dis stay show ?thesis by blast
qed

subsection \<open>C1: the page cursor after a delete\<close>

text \<open>Variant 2 on the states that the page reaches: with a positive page size the
  cursor is in \<open>[1, totalPages]\<close>.\<close>

lemma reachable2_page_in_range:
  assumes "0 < perPage2 (run2 evs (start2 its u1 u2 u3 n1 n2 n3))"
  shows "1 \<le> page (run2 evs (start2 its u1 u2 u3 n1 n2 n3))
    \<and> page (run2 evs (start2 its u1 u2 u3 n1 n2 n3))
        \<le> totalPages_spec
            (length (queryAndSort (run2 evs (start2 its u1 u2 u3 n1 n2 n3))
               (items (run2 evs (start2 its u1 u2 u3 n1 n2 n3)))))
            (perPage2 (run2 evs (start2 its u1 u2 u3 n1 n2 n3)))"
proof -
  let ?r = "run2 evs (start2 its u1 u2 u3 n1 n2 n3)"
  have "page_valid ?r" by (rule page_valid_run2) (rule page_valid_start2)
  then have "1 \<le> page ?r" and "\<not> js_gt (page ?r) (pages ?r)" by (simp_all add: page_valid_def)
  then show ?thesis by (simp add: pages_pos [OF assms])
qed

text \<open>
  C1 does not hold in variant 1. The claim is that the pagination step of \<open>render\<close> yields
  an effective page in \<open>[1, totalPages]\<close> with \<open>totalPages = max(1, ceil(count / perPage))\<close>
  and falls back to the last page when a delete has shrunk the filtered set. The \<open>render\<close>
  of variant 1 (lines 105-108, 136) shows the cursor as it is, and its page count is
  \<open>ceil(count / perPage)\<close> with no lower bound of 1; the single delete (lines 221-227) and
  clear-all (lines 318-325) leave the cursor where it was, where the bulk delete resets it
  to 1 (line 312) and variant 2 clamps it (line 485), so that on every state that variant
  2 reaches with a positive page size the cursor is in \<open>[1, totalPages]\<close>.
\<close>

theorem cursor_unclamped:
  "currentPage (render s) = currentPage s
   \<and> pageSpan (dom1 (render s)) = currentPage s
   \<and> totalPages s
       = ceil_div (length (filter (matches_spec (searchQuery s)) (users s))) (perPage s)
   \<and> currentPage (listBody_click_delete i True s) = currentPage s
   \<and> currentPage (clearAllBtn_click True s) = currentPage s
   \<and> (selectedIds s \<noteq> {} \<longrightarrow> currentPage (bulkDeleteBtn_click True s) = 1)
   \<and> (0 < perPage2 (run2 evs (start2 its u1 u2 u3 n1 n2 n3)) \<longrightarrow>
        1 \<le> page (run2 evs (start2 its u1 u2 u3 n1 n2 n3))
        \<and> page (run2 evs (start2 its u1 u2 u3 n1 n2 n3))
            \<le> totalPages_spec
                (length (queryAndSort (run2 evs (start2 its u1 u2 u3 n1 n2 n3))
                   (items (run2 evs (start2 its u1 u2 u3 n1 n2 n3)))))
                (perPage2 (run2 evs (start2 its u1 u2 u3 n1 n2 n3))))"
  using reachable2_page_in_range [of evs its u1 u2 u3 n1 n2 n3]
  by (simp add: totalPages_filter listBody_click_delete_def clearAllBtn_click_def
      bulkDeleteBtn_click_def)

text \<open>Records whose keys are all equal stay in their order; a slice that starts behind the
  last record is empty.\<close>

lemma array_sort_ties:
  "(\<And>a b. a \<in> set xs \<Longrightarrow> b \<in> set xs \<Longrightarrow> cmp a b \<le> 0) \<Longrightarrow> array_sort cmp xs = xs"
proof (induction xs)
  case Nil
  show ?case by (simp add: array_sort_def)
next
  case (Cons x xs)
  then have "array_sort cmp xs = xs" by simp
  then have "array_sort cmp (x # xs) = insert_sorted cmp x xs" by (simp add: array_sort_def)
  also have "\<dots> = x # xs" using Cons.prems by (cases xs) simp_all
  finally show ?case .
qed

lemma sample_users_name: "a \<in> set (sample_users k) \<Longrightarrow> name a = ''Al''"
  by (auto simp add: sample_users_def)

lemma sortedUsers_sample:
  assumes "set (users s) \<subseteq> set (sample_users k)" and "searchQuery s = []"
    and "fst (sortBy s) = Name"
  shows "sortedUsers s = users s"
proof -
  have "compareUsers (sortBy s) a b \<le> 0" if "a \<in> set (users s)" "b \<in> set (users s)" for a b
  proof -
    have "name a = ''Al''" "name b = ''Al''"
      using that assms(1) by (auto intro: sample_users_name)
    then show ?thesis by (simp add: compareUsers_def assms(3))
  qed
  then show ?thesis by (simp add: sortedUsers_def assms(2) array_sort_ties)
qed

lemma slice_beyond: "int (length xs) \<le> start \<Longrightarrow> slice xs start fin = []"
  by (simp add: slice_def Let_def)

text \<open>
  Six records, five per page: the next-page button leads to page 2, whose only row is the
  record with id 6. Deleting that record leaves the cursor on page 2 of 1, with an empty
  table for five records. A bulk delete of the same record goes back to page 1, and so
  does variant 2 on the same events.
\<close>

theorem cursor_unclamped_witness:
  "map (\<lambda>row. id' (fst row))
     (listBody (dom1 (run1 [NextClick] (start1 (sample_users 6) 5 (Name, Asc))))) = [6]
   \<and> currentPage (run1 [NextClick, ClickDelete 6 True]
        (start1 (sample_users 6) 5 (Name, Asc))) = 2
   \<and> pageSpan (dom1 (run1 [NextClick, ClickDelete 6 True]
        (start1 (sample_users 6) 5 (Name, Asc)))) = 2
   \<and> totalPages (run1 [NextClick, ClickDelete 6 True]
        (start1 (sample_users 6) 5 (Name, Asc))) = Fin 1
   \<and> listBody (dom1 (run1 [NextClick, ClickDelete 6 True]
        (start1 (sample_users 6) 5 (Name, Asc)))) = []
   \<and> countSpan (dom1 (run1 [NextClick, ClickDelete 6 True]
        (start1 (sample_users 6) 5 (Name, Asc)))) = 5
   \<and> currentPage (run1 [NextClick, RowCheckboxChange 6 True [(6, True)], BulkDeleteClick True]
        (start1 (sample_users 6) 5 (Name, Asc))) = 1
   \<and> page (run2 [NextClick2, ClickDelete2 ''x'' True]
        (start2 (sample_items 6) ''a'' ''b'' ''c'' 9 9 9)) = 1"
proof -
  let ?s0 = "start1 (sample_users 6) 5 (Name, Asc)"
  let ?s1 = "render (?s0\<lparr>currentPage := 2\<rparr>)"
  have n: "nextBtn_click ?s0 = ?s1"
    by (simp add: nextBtn_click_def nextBtn_totalPages_def start1_def initial_state1_def
        toLowerCase_def sample_users_def ceil_div_def)
  have r1: "run1 [NextClick] ?s0 = ?s1" by (simp add: run1_def n)
  have r2: "run1 [NextClick, ClickDelete 6 True] ?s0 = listBody_click_delete 6 True ?s1"
    by (simp add: run1_def n)
  have so: "sortedUsers (?s0\<lparr>currentPage := 2\<rparr>) = sample_users 6"
    using sortedUsers_sample [of "?s0\<lparr>currentPage := 2\<rparr>" 6]
    by (simp add: start1_def initial_state1_def)
  have sl: "map id' (slice (sample_users 6) 5 10) = [6]" by code_simp
  have a: "map (\<lambda>row. id' (fst row)) (listBody (dom1 ?s1)) = [6]"
    using sl by (simp add: render_def paginatedUsers_def so comp_def)
       (simp add: start1_def initial_state1_def)
  have "currentPage (listBody_click_delete 6 True ?s1) = currentPage ?s1"
    using cursor_unclamped [of ?s1 6] by blast
  then have b: "currentPage (listBody_click_delete 6 True ?s1) = 2"
    by (simp add: start1_def initial_state1_def)
  then have c: "pageSpan (dom1 (listBody_click_delete 6 True ?s1)) = 2"
    by (simp add: listBody_click_delete_def)
  have l: "length (filter (\<lambda>user. id' user \<noteq> 6) (sample_users 6)) = 5" by code_simp
  have d: "totalPages (listBody_click_delete 6 True ?s1) = Fin 1"
    by (simp add: listBody_click_delete_def)
       (simp add: totalPages_def sortedUsers_def start1_def initial_state1_def l ceil_div_def)
  have e: "listBody (dom1 (listBody_click_delete 6 True ?s1)) = []"
    by (simp add: listBody_click_delete_def render_def paginatedUsers_def)
       (simp add: slice_beyond sortedUsers_def start1_def initial_state1_def l)
  have f: "countSpan (dom1 (listBody_click_delete 6 True ?s1)) = 5"
    by (simp add: listBody_click_delete_def render_def sortedUsers_def start1_def
        initial_state1_def l)
  have g: "currentPage (run1 [NextClick, RowCheckboxChange 6 True [(6, True)],
      BulkDeleteClick True] ?s0) = 1"
    by (simp add: run1_def n listBody_change_def bulkDeleteBtn_click_def)
  have h: "page (run2 [NextClick2, ClickDelete2 ''x'' True]
        (start2 (sample_items 6) ''a'' ''b'' ''c'' 9 9 9)) = 1"
    by code_simp
  from a b c d e f g h show ?thesis unfolding r1 r2 by blast
qed

subsection \<open>Matching by derivatives is matching\<close>

lemma Nil_in_conc: "[] \<in> conc A B \<longleftrightarrow> [] \<in> A \<and> [] \<in> B"
  by (auto simp add: conc_def)

lemma nullable_lang: "nullable r \<longleftrightarrow> [] \<in> lang r"
  by (induction r) (auto simp add: Nil_in_conc intro: star_Nil)

lemma Cons_in_conc:
  "a # w \<in> conc A B \<longleftrightarrow>
     (\<exists>u v. w = u @ v \<and> a # u \<in> A \<and> v \<in> B) \<or> ([] \<in> A \<and> a # w \<in> B)"
proof
  assume "a # w \<in> conc A B"
  then obtain x y where xy: "a # w = x @ y" "x \<in> A" "y \<in> B" by (auto simp add: conc_def)
  show "(\<exists>u v. w = u @ v \<and> a # u \<in> A \<and> v \<in> B) \<or> ([] \<in> A \<and> a # w \<in> B)"
  proof (cases x)
    case Nil
    with xy show ?thesis by simp
  next
    case (Cons b x')
    with xy have "w = x' @ y" "a # x' \<in> A" by simp_all
    with xy(3) show ?thesis by blast
  qed
next
  assume "(\<exists>u v. w = u @ v \<and> a # u \<in> A \<and> v \<in> B) \<or> ([] \<in> A \<and> a # w \<in> B)"
  then show "a # w \<in> conc A B"
  proof
    assume "\<exists>u v. w = u @ v \<and> a # u \<in> A \<and> v \<in> B"
    then obtain u v where "w = u @ v" "a # u \<in> A" "v \<in> B" by blast
    then have "a # w = (a # u) @ v" "a # u \<in> A" "v \<in> B" by simp_all
    then show ?thesis unfolding conc_def by blast
  next
    assume "[] \<in> A \<and> a # w \<in> B"
    then have "a # w = [] @ (a # w)" "[] \<in> A" "a # w \<in> B" by simp_all
    then show ?thesis unfolding conc_def by blast
  qed
qed

lemma Cons_in_star:
  "a # w \<in> star A \<longleftrightarrow> (\<exists>u v. w = u @ v \<and> a # u \<in> A \<and> v \<in> star A)"
proof
  assume "a # w \<in> star A"
  then show "\<exists>u v. w = u @ v \<and> a # u \<in> A \<and> v \<in> star A"
  proof (induction "a # w" rule: star.induct)
    case (star_app u v)
    show ?case
    proof (cases u)
      case Nil
      with star_app show ?thesis by simp
    next
      case (Cons b u')
      with star_app(1,2,4) have "w = u' @ v" "a # u' \<in> A" "v \<in> star A" by simp_all
      then show ?thesis by blast
    qed
  qed
next
  assume "\<exists>u v. w = u @ v \<and> a # u \<in> A \<and> v \<in> star A"
  then obtain u v where w: "w = u @ v" and u: "a # u \<in> A" and v: "v \<in> star A" by blast
  from u v have "(a # u) @ v \<in> star A" by (rule star_app)
  with w show "a # w \<in> star A" by simp
qed

lemma lang_deriv: "w \<in> lang (deriv a r) \<longleftrightarrow> a # w \<in> lang r"
proof (induction r arbitrary: w)
  case (Seq r s)
  then show ?case
    by (auto simp add: Cons_in_conc nullable_lang) (auto simp add: conc_def)
next
  case (Star r)
  then show ?case by (auto simp add: Cons_in_star) (auto simp add: conc_def)
qed auto

lemma test_lang: "test r v \<longleftrightarrow> v \<in> lang r"
  unfolding test_def
  by (induction v arbitrary: r) (simp_all add: nullable_lang lang_deriv)

subsection \<open>The emails that the regular expression of line 604 accepts\<close>

lemma star_NoneOf: "star {[c] | c. c \<notin> set cs} = {w. set w \<inter> set cs = {}}"
proof (intro equalityI subsetI)
  fix w assume "w \<in> star {[c] | c. c \<notin> set cs}"
  then show "w \<in> {w. set w \<inter> set cs = {}}"
    by (induction rule: star.induct) auto
next
  fix w assume "w \<in> {w. set w \<inter> set cs = {}}"
  then have "set w \<inter> set cs = {}" by simp
  then show "w \<in> star {[c] | c. c \<notin> set cs}"
  proof (induction w)
    case Nil
    show ?case by (rule star_Nil)
  next
    case (Cons c w)
    then have "[c] \<in> {[c] | c. c \<notin> set cs}" "w \<in> star {[c] | c. c \<notin> set cs}" by auto
    then have "[c] @ w \<in> star {[c] | c. c \<notin> set cs}" by (rule star_app)
    then show ?case by simp
  qed
qed

lemma lang_Plus_NoneOf:
  "lang (Plus (NoneOf cs)) = {w. w \<noteq> [] \<and> set w \<inter> set cs = {}}"
proof -
  have "lang (Plus (NoneOf cs)) = conc {[c] | c. c \<notin> set cs} {w. set w \<inter> set cs = {}}"
    by (simp add: Plus_def star_NoneOf)
  also have "\<dots> = {w. w \<noteq> [] \<and> set w \<inter> set cs = {}}"
  proof (intro equalityI subsetI)
    fix w assume "w \<in> conc {[c] | c. c \<notin> set cs} {w. set w \<inter> set cs = {}}"
    then show "w \<in> {w. w \<noteq> [] \<and> set w \<inter> set cs = {}}" by (auto simp add: conc_def)
  next
    fix w assume "w \<in> {w. w \<noteq> [] \<and> set w \<inter> set cs = {}}"
    then obtain c w' where "w = [c] @ w'" "c \<notin> set cs" "set w' \<inter> set cs = {}"
      by (cases w) auto
    then show "w \<in> conc {[c] | c. c \<notin> set cs} {w. set w \<inter> set cs = {}}"
      unfolding conc_def by blast
  qed
  finally show ?thesis .
qed

lemma email_part_lang:
  "w \<in> lang (Plus (NoneOf (CHR ''@'' # whitespace))) \<longleftrightarrow> email_part w"
  by (auto simp add: lang_Plus_NoneOf email_part_def isWhiteSpace_def)

lemma validateEmail_parts:
  "validateEmail v \<longleftrightarrow>
     (\<exists>l d t. v = l @ ''@'' @ d @ ''.'' @ t \<and> email_part l \<and> email_part d \<and> email_part t)"
proof -
  let ?P = "lang (Plus (NoneOf (CHR ''@'' # whitespace)))"
  have "validateEmail v \<longleftrightarrow> v \<in> conc ?P (conc {''@''} (conc ?P (conc {''.''} ?P)))"
    by (simp add: validateEmail_def test_lang email_rexp_def Let_def del: lang.simps(4))
  also have "\<dots> \<longleftrightarrow> (\<exists>l d t. v = l @ ''@'' @ d @ ''.'' @ t \<and> l \<in> ?P \<and> d \<in> ?P \<and> t \<in> ?P)"
    unfolding conc_def by (auto; blast)
  finally show ?thesis by (simp only: email_part_lang)
qed

lemma validateEmail_iff: "validateEmail v \<longleftrightarrow> email_shape v"
  by (simp only: validateEmail_parts email_shape_def)

subsection \<open>C3: validation on create\<close>

text \<open>
  C3 as stated fails in variant 1, whose submit listener (lines 160-173) has no validation
  step: a submit with an empty name and an empty email prepends a record and persists.
\<close>

theorem create_validation_counterexample:
  "users (itemForm_submit 1000 ''2024-01-01T00:00:00.000Z'' [] [] ''user''
      (start1 [] 5 (Name, Asc)))
   = [\<lparr>id' = 1000, name = [], email = [], role = ''user'',
       createdAt = ''2024-01-01T00:00:00.000Z''\<rparr>]
   \<and> localStorage (itemForm_submit 1000 ''2024-01-01T00:00:00.000Z'' [] [] ''user''
      (start1 [] 5 (Name, Asc)))
   = [[\<lparr>id' = 1000, name = [], email = [], role = ''user'',
        createdAt = ''2024-01-01T00:00:00.000Z''\<rparr>]]
   \<and> alerts (itemForm_submit 1000 ''2024-01-01T00:00:00.000Z'' [] [] ''user''
      (start1 [] 5 (Name, Asc))) = []"
  by (simp add: itemForm_submit_def start1_def initial_state1_def trim_def)

text \<open>
  C3, amended. In variant 2 (lines 547-552), a create request whose trimmed name is empty
  or whose trimmed email does not match the regular expression of line 604 only adds the
  alert: the store and the storage are as before. Any other request appends the record
  and persists. Variant 1 creates and persists whatever the fields hold. The regular
  expression accepts exactly the texts of the shape \<open>local@domain.tld\<close>.
\<close>

theorem create_validation:
  "(trim nameValue = [] \<or> \<not> validateEmail (trim emailValue) \<longrightarrow>
      form_submit uid now nameValue emailValue roleValue s
        = s\<lparr>alerts2 := ''Name and valid email required'' # alerts2 s\<rparr>
      \<and> items (form_submit uid now nameValue emailValue roleValue s) = items s
      \<and> storage (form_submit uid now nameValue emailValue roleValue s) = storage s)
   \<and> (trim nameValue \<noteq> [] \<and> validateEmail (trim emailValue) \<longrightarrow>
      items (form_submit uid now nameValue emailValue roleValue s)
        = items s @ [\<lparr>id' = uid, name = trim nameValue, email = trim emailValue,
                       role = roleValue, createdAt = now\<rparr>]
      \<and> storage (form_submit uid now nameValue emailValue roleValue s)
        = items (form_submit uid now nameValue emailValue roleValue s) # storage s
      \<and> alerts2 (form_submit uid now nameValue emailValue roleValue s) = alerts2 s)
   \<and> users (itemForm_submit t isoNow nameValue emailValue roleValue s1)
        = \<lparr>id' = t, name = trim nameValue, email = trim emailValue, role = roleValue,
           createdAt = isoNow\<rparr> # users s1
   \<and> localStorage (itemForm_submit t isoNow nameValue emailValue roleValue s1)
        = users (itemForm_submit t isoNow nameValue emailValue roleValue s1) # localStorage s1
   \<and> validateEmail v = email_shape v"
  by (simp add: form_submit_def addItem_def itemForm_submit_def Let_def validateEmail_iff)

theorem create_validation_witness:
  "items (form_submit ''u1'' 7 '''' ''rahim@example.com'' ''admin''
      (start2 [] ''a'' ''b'' ''c'' 9 9 9)) = demo ''a'' ''b'' ''c'' 9 9 9
   \<and> storage (form_submit ''u1'' 7 '''' ''rahim@example.com'' ''admin''
      (start2 [] ''a'' ''b'' ''c'' 9 9 9)) = [demo ''a'' ''b'' ''c'' 9 9 9]
   \<and> alerts2 (form_submit ''u1'' 7 ''  '' ''rahim@example.com'' ''admin''
      (start2 [] ''a'' ''b'' ''c'' 9 9 9)) = [''Name and valid email required'']
   \<and> items (form_submit ''u1'' 7 ''Rahim'' ''rahim.example.com'' ''admin''
      (start2 [] ''a'' ''b'' ''c'' 9 9 9)) = demo ''a'' ''b'' ''c'' 9 9 9
   \<and> length (items (form_submit ''u1'' 7 '' Rahim '' ''rahim@example.com'' ''admin''
      (start2 [] ''a'' ''b'' ''c'' 9 9 9))) = 4"
proof -
  let ?s = "start2 [] ''a'' ''b'' ''c'' 9 9 9"
  have s: "items ?s = demo ''a'' ''b'' ''c'' 9 9 9" "storage ?s = [demo ''a'' ''b'' ''c'' 9 9 9]"
    "alerts2 ?s = []"
    by (simp_all add: start2_def seedIfEmpty_def initial_state2_def)
  have t1: "trim '''' = []" and t2: "trim ''  '' = []" and t3: "trim ''Rahim'' \<noteq> []"
    and t4: "trim '' Rahim '' \<noteq> []"
    by code_simp+
  have e1: "\<not> validateEmail (trim ''rahim.example.com'')" by code_simp
  have e2: "validateEmail (trim ''rahim@example.com'')" by code_simp
  have a: "items (form_submit ''u1'' 7 '''' ''rahim@example.com'' ''admin'' ?s) = demo ''a'' ''b'' ''c'' 9 9 9"
    and b: "storage (form_submit ''u1'' 7 '''' ''rahim@example.com'' ''admin'' ?s) = [demo ''a'' ''b'' ''c'' 9 9 9]"
    using create_validation [THEN conjunct1, of "''''" "''rahim@example.com''" "''u1''" 7 "''admin''" ?s] t1 s
    by simp_all
  have c: "alerts2 (form_submit ''u1'' 7 ''  '' ''rahim@example.com'' ''admin'' ?s) = [''Name and valid email required'']"
    using create_validation [THEN conjunct1, of "''  ''" "''rahim@example.com''" "''u1''" 7 "''admin''" ?s] t2 s
    by simp
  have d: "items (form_submit ''u1'' 7 ''Rahim'' ''rahim.example.com'' ''admin'' ?s) = demo ''a'' ''b'' ''c'' 9 9 9"
    using create_validation [THEN conjunct1, of "''Rahim''" "''rahim.example.com''" "''u1''" 7 "''admin''" ?s] e1 s
    by simp
  have e: "length (items (form_submit ''u1'' 7 '' Rahim '' ''rahim@example.com'' ''admin'' ?s)) = 4"
    using create_validation [THEN conjunct2, THEN conjunct1, of "'' Rahim ''" "''rahim@example.com''" "''u1''" 7 "''admin''" ?s] t4 e2 s
    by (simp add: demo_def)
  from a b c d e show ?thesis by blast
qed

subsection \<open>C4: the ids of the records\<close>

lemma find_distinct:
  "distinct (map id' xs) \<Longrightarrow> x \<in> set xs \<Longrightarrow> find (\<lambda>u. id' u = id' x) xs = Some x"
  by (induction xs) (auto simp add: rev_image_eqI)

lemma update_first_ids:
  "(\<And>x. id' (f x) = id' x) \<Longrightarrow> update_first P f xs = Some ys \<Longrightarrow> map id' ys = map id' xs"
  by (induction xs arbitrary: ys) (auto split: if_splits)

lemma handle1_distinct:
  assumes "distinct (map id' (users s))" and "clock_fresh ev s"
  shows "distinct (map id' (users (handle1 ev s)))"
proof (cases ev)
  case (ClickCopy i now isoNow)
  then show ?thesis using assms
    by (auto simp add: listBody_click_copy_def Let_def split: option.splits)
next
  case (EditFormSubmit n e r)
  then show ?thesis using assms
    by (auto simp add: editForm_submit_def closeModal_def split: option.splits
        dest!: update_first_ids [rotated])
qed (use assms in \<open>auto simp add: itemForm_submit_def searchInput_input_def perPageSelect_change_def
    sortBySelect_change_def prevBtn_click_def nextBtn_click_def listBody_click_delete_def
    listBody_click_edit_def closeModal_def selectAllCheckbox_change_def listBody_change_def
    bulkDeleteBtn_click_def clearAllBtn_click_def Let_def distinct_map_filter\<close>)


lemma run1_distinct:
  "distinct (map id' (users s)) \<Longrightarrow> clock_fresh_run evs s \<Longrightarrow>
   distinct (map id' (users (run1 evs s)))"
  unfolding run1_def
  by (induction evs arbitrary: s) (auto simp add: handle1_distinct)

lemma copy_found:
  "find (\<lambda>u. id' u = i) (users s) = Some x \<Longrightarrow>
   users (listBody_click_copy i now isoNow s) = x\<lparr>id' := now, createdAt := isoNow\<rparr> # users s
   \<and> localStorage (listBody_click_copy i now isoNow s)
       = (x\<lparr>id' := now, createdAt := isoNow\<rparr> # users s) # localStorage s"
  by (simp add: listBody_click_copy_def Let_def)

text \<open>
  C4, amended. Along every sequence of events in which each create and each copy reads a
  clock value that is not the id of a record in the store, the ids of the records stay
  pairwise different. Copying the record \<open>x\<close> found for an id puts a new record first in
  the store, with the name, email and role of \<open>x\<close>, the clock value as id and the current
  time as \<open>createdAt\<close>, and the store is longer by exactly 1; create puts a record with
  the clock value as id first. As in variant 1, the create of variant 2 keeps the ids
  different when \<open>uid()\<close> returns an id that is not in the store.
\<close>

theorem ids_unique:
  "(distinct (map id' (users s)) \<and> clock_fresh_run evs s \<longrightarrow>
      distinct (map id' (users (run1 evs s))))
   \<and> (find (\<lambda>u. id' u = i) (users s) = Some x \<longrightarrow>
      users (listBody_click_copy i now isoNow s) = x\<lparr>id' := now, createdAt := isoNow\<rparr> # users s
      \<and> name (hd (users (listBody_click_copy i now isoNow s))) = name x
      \<and> email (hd (users (listBody_click_copy i now isoNow s))) = email x
      \<and> role (hd (users (listBody_click_copy i now isoNow s))) = role x
      \<and> createdAt (hd (users (listBody_click_copy i now isoNow s))) = isoNow
      \<and> id' (hd (users (listBody_click_copy i now isoNow s))) = now
      \<and> length (users (listBody_click_copy i now isoNow s)) = Suc (length (users s)))
   \<and> users (itemForm_submit now isoNow n e r s)
      = \<lparr>id' = now, name = trim n, email = trim e, role = r, createdAt = isoNow\<rparr> # users s
   \<and> (distinct (map id' (items t)) \<and> uid \<notin> set (map id' (items t)) \<longrightarrow>
      distinct (map id' (items (addItem uid now2 n e r t))))"
  by (auto simp add: run1_distinct copy_found itemForm_submit_def addItem_def Let_def)

text \<open>
  C4 as stated fails: the id is \<open>Date.now()\<close> (lines 163 and 245) and nothing compares
  it with the ids in the store. A create and a copy that read the same clock value leave
  two records with one id.
\<close>

theorem ids_unique_counterexample:
  "map id' (users (run1
      [ItemFormSubmit 1000 ''2024-01-01T00:00:00.000Z'' ''Rahim'' ''rahim@example.com'' ''admin'',
       ClickCopy 1000 1000 ''2024-01-01T00:00:00.000Z'']
      (start1 [] 5 (Name, Asc)))) = [1000, 1000]"
  by (simp add: run1_def itemForm_submit_def listBody_click_copy_def start1_def
      initial_state1_def)

theorem ids_unique_witness:
  "clock_fresh_run
      [ItemFormSubmit 1000 ''2024-01-01T00:00:00.000Z'' ''Rahim'' ''rahim@example.com'' ''admin'',
       ClickCopy 1000 1001 ''2024-01-01T00:00:00.001Z'']
      (start1 [] 5 (Name, Asc))
   \<and> users (run1
      [ItemFormSubmit 1000 ''2024-01-01T00:00:00.000Z'' ''Rahim'' ''rahim@example.com'' ''admin'',
       ClickCopy 1000 1001 ''2024-01-01T00:00:00.001Z'']
      (start1 [] 5 (Name, Asc)))
     = [\<lparr>id' = 1001, name = ''Rahim'', email = ''rahim@example.com'', role = ''admin'',
         createdAt = ''2024-01-01T00:00:00.001Z''\<rparr>,
        \<lparr>id' = 1000, name = ''Rahim'', email = ''rahim@example.com'', role = ''admin'',
         createdAt = ''2024-01-01T00:00:00.000Z''\<rparr>]
   \<and> distinct (map id' (users (run1
      [ItemFormSubmit 1000 ''2024-01-01T00:00:00.000Z'' ''Rahim'' ''rahim@example.com'' ''admin'',
       ClickCopy 1000 1001 ''2024-01-01T00:00:00.001Z'']
      (start1 [] 5 (Name, Asc)))))"
proof -
  let ?evs = "[ItemFormSubmit 1000 ''2024-01-01T00:00:00.000Z'' ''Rahim'' ''rahim@example.com'' ''admin'',
       ClickCopy 1000 1001 ''2024-01-01T00:00:00.001Z'']"
  let ?s = "start1 [] 5 (Name, Asc)"
  have t: "trim ''Rahim'' = ''Rahim''" "trim ''rahim@example.com'' = ''rahim@example.com''"
    by code_simp+
  have d: "distinct (map id' (users ?s))" by (simp add: start1_def initial_state1_def)
  have f: "clock_fresh_run ?evs ?s"
    by (simp add: itemForm_submit_def start1_def initial_state1_def)
  have u: "users (run1 ?evs ?s)
     = [\<lparr>id' = 1001, name = ''Rahim'', email = ''rahim@example.com'', role = ''admin'',
         createdAt = ''2024-01-01T00:00:00.001Z''\<rparr>,
        \<lparr>id' = 1000, name = ''Rahim'', email = ''rahim@example.com'', role = ''admin'',
         createdAt = ''2024-01-01T00:00:00.000Z''\<rparr>]"
    by (simp add: run1_def itemForm_submit_def listBody_click_copy_def start1_def
      initial_state1_def t)
  from ids_unique [THEN conjunct1, of ?s ?evs] d f
  have "distinct (map id' (users (run1 ?evs ?s)))" by blast
  with f u show ?thesis by blast
qed

subsection \<open>C2: loading the record set\<close>

text \<open>
  C2 does not hold in variant 1. Whenever \<open>JSON.parse\<close> throws on the stored text, the
  initialisation of \<open>users\<close> (line 54) throws too and yields no record set, where \<open>load\<close>
  of variant 2 (lines 447-450) catches the error and yields the empty array. A missing
  value yields the empty array in both variants.
\<close>

theorem load_corrupt:
  "(JSON_parse raw = Inl e \<longrightarrow>
      users_init JSON_parse (Some raw) = Inl e
      \<and> (\<forall>v. users_init JSON_parse (Some raw) \<noteq> Inr v)
      \<and> load JSON_parse (Some raw) = JArr [])
   \<and> (JSON_parse ''null'' = Inr JNull \<longrightarrow> users_init JSON_parse None = Inr (JArr []))
   \<and> load JSON_parse None = JArr []"
  by (simp add: users_init_def load_def)

text \<open>The stored text \<open>{\<close>, with a \<open>JSON.parse\<close> that reads \<open>null\<close> and \<open>[]\<close> and throws on
  every other text.\<close>

theorem load_corrupt_witness:
  "users_init (\<lambda>s. if s = ''null'' then Inr JNull else if s = ''[]'' then Inr (JArr [])
      else Inl SyntaxError) (Some ''{'') = Inl SyntaxError
   \<and> load (\<lambda>s. if s = ''null'' then Inr JNull else if s = ''[]'' then Inr (JArr [])
      else Inl SyntaxError) (Some ''{'') = JArr []
   \<and> users_init (\<lambda>s. if s = ''null'' then Inr JNull else if s = ''[]'' then Inr (JArr [])
      else Inl SyntaxError) None = Inr (JArr [])"
  using load_corrupt [of "\<lambda>s. if s = ''null'' then Inr JNull else if s = ''[]'' then Inr (JArr [])
      else Inl SyntaxError" "''{''" SyntaxError]
  by simp

subsection \<open>The sort of the engine is a stable sort\<close>

lemma mset_insert_sorted [simp]: "mset (insert_sorted cmp x ys) = add_mset x (mset ys)"
  by (induction ys) auto

lemma mset_array_sort [simp]: "mset (array_sort cmp xs) = mset xs"
  by (induction xs) (auto simp add: array_sort_def)

lemma set_insert_sorted [simp]: "set (insert_sorted cmp x ys) = insert x (set ys)"
  by (induction ys) auto











subsection \<open>There is one stable sort\<close>





subsection \<open>The order of ISO timestamps\<close>

lemma length_digits [simp]: "length (digits w n) = w"
  by (induction w arbitrary: n) auto

lemma less_append_same_length:
  fixes xs ys :: "'a::linorder list"
  shows "length xs = length ys \<Longrightarrow> (xs @ r < ys @ r' \<longleftrightarrow> xs < ys \<or> (xs = ys \<and> r < r'))"
  by (induction xs ys rule: list_induct2) auto









lemma less_append_same [simp]:
  fixes p :: "'a::linorder list"
  shows "(p @ r < p @ r') = (r < r')"
  by (simp add: less_append_same_length)



subsection \<open>C6: the sort step\<close>






end
